theory Spec2Isabelle
  imports Main "HOL-Library.Sublist"
begin

section \<open>Python values read from an artifact descriptor\<close>

text \<open>
  The descriptor is a TOML document, so the value stored under a key of a base-directory
  record is a string, an integer, a boolean, an array or a table; a missing key reads as
  Python's \<open>None\<close> (the result of \<open>dict.get\<close>), modelled by \<open>None\<close> of an option type.
  Array elements and table values are scalars here; floats and dates are left out.
  Strings are ASCII: \<open>lower\<close> is Python's \<open>str.lower\<close> on that alphabet.
\<close>

datatype scalar = SStr string | SInt int | SBool bool

datatype pyval =
    VBool bool
  | VInt int
  | VStr string
  | VList "scalar list"
  | VTable "(string \<times> scalar) list"

text \<open>Python's truth value testing, \<open>bool(v)\<close>.\<close>

fun truthy :: "pyval \<Rightarrow> bool" where
  "truthy (VBool b) = b"
| "truthy (VInt i) = (i \<noteq> 0)"
| "truthy (VStr s) = (s \<noteq> [])"
| "truthy (VList vs) = (vs \<noteq> [])"
| "truthy (VTable kvs) = (kvs \<noteq> [])"

definition lower_char :: "char \<Rightarrow> char" where
  "lower_char c =
     (let n = (of_char c :: nat) in if 65 \<le> n \<and> n \<le> 90 then char_of (n + 32) else c)"

definition lower :: "string \<Rightarrow> string" where
  "lower s = map lower_char s"

definition digit_char :: "nat \<Rightarrow> char" where
  "digit_char d = char_of (48 + d)"

fun str_nat :: "nat \<Rightarrow> string" where
  "str_nat n = (if n < 10 then [digit_char n] else str_nat (n div 10) @ [digit_char (n mod 10)])"

definition str_int :: "int \<Rightarrow> string" where
  "str_int i = (if i < 0 then CHR ''-'' # str_nat (nat (- i)) else str_nat (nat i))"

text \<open>\<open>str(v)\<close> for an array element.\<close>

fun py_str :: "scalar \<Rightarrow> string" where
  "py_str (SStr s) = s"
| "py_str (SInt i) = str_int i"
| "py_str (SBool b) = (if b then ''True'' else ''False'')"

section \<open>evaluate_optional\<close>

text \<open>
  The \<open>for v in optional_value\<close> loop of \<open>evaluate_optional\<close>: it returns at the first
  element whose lowercased \<open>str\<close> is the system name, and \<open>False\<close> after the last one.
\<close>

fun optional_loop :: "string \<Rightarrow> scalar list \<Rightarrow> bool" where
  "optional_loop system_name [] = False"
| "optional_loop system_name (v # vs) =
     (if lower (py_str v) = system_name then True else optional_loop system_name vs)"

text \<open>
  \<open>evaluate_optional\<close>. The first argument is the value of \<open>platform.system()\<close>; the
  second the value of \<open>basedir_record.get("optional")\<close>. A string is wrapped into a
  one-element list before the list branch, as in the source.
\<close>

fun evaluate_optional :: "string \<Rightarrow> pyval option \<Rightarrow> bool" where
  "evaluate_optional platform_system None = False"
| "evaluate_optional platform_system (Some (VStr s)) =
     optional_loop (lower platform_system) [SStr s]"
| "evaluate_optional platform_system (Some (VList vs)) =
     optional_loop (lower platform_system) vs"
| "evaluate_optional platform_system (Some v) = truthy v"

section \<open>The ComponentDefaults registry\<close>

text \<open>
  A \<open>ComponentDefaults\<close> object has two list attributes, both fresh copies made by
  \<open>list(...)\<close> in the constructor, so no two objects share a list. The class attribute
  \<open>ALL\<close> is a dictionary from names to objects, kept in insertion order. An object is
  stored in \<open>ALL\<close> under its own name only and no key is ever removed, so a reference
  to a registered object is its name; an object built with an empty name is stored
  nowhere by the class and is carried by the reference itself.
\<close>

datatype error =
    KeyError string
  | OSError string

record component_defaults =
  cd_includes :: "string list"
  cd_excludes :: "string list"

type_synonym registry = "(string \<times> component_defaults) list"

datatype cd_ref = Registered string | Unregistered component_defaults

definition empty_defaults :: component_defaults where
  "empty_defaults = \<lparr>cd_includes = [], cd_excludes = []\<rparr>"

text \<open>
  \<open>ComponentDefaults.__init__(name, includes, excludes)\<close>: the attributes are set;
  then, for a truthy (non-empty) name, a name already in \<open>ALL\<close> raises \<open>KeyError\<close>
  and otherwise the object is registered. The registry after the call is returned in
  both cases.
\<close>

definition ComponentDefaults_init ::
  "registry \<Rightarrow> string \<Rightarrow> string list \<Rightarrow> string list \<Rightarrow> (error + cd_ref) \<times> registry" where
  "ComponentDefaults_init r name incs excs =
     (let self = \<lparr>cd_includes = incs, cd_excludes = excs\<rparr>
      in if name \<noteq> [] then
           (if name \<in> fst ` set r
            then (Inl (KeyError (''ComponentDefaults '' @ name @ '' already defined'')), r)
            else (Inr (Registered name), r @ [(name, self)]))
         else (Inr (Unregistered self), r))"

text \<open>
  \<open>ComponentDefaults.get(name)\<close> is \<open>ALL.get(name) or ComponentDefaults(name)\<close>. An
  instance is always truthy (the class defines neither \<open>__bool__\<close> nor \<open>__len__\<close>), so
  the constructor runs exactly when the name is not a key of \<open>ALL\<close>.
\<close>

definition ComponentDefaults_get :: "registry \<Rightarrow> string \<Rightarrow> (error + cd_ref) \<times> registry" where
  "ComponentDefaults_get r name =
     (case map_of r name of
        Some obj \<Rightarrow> (Inr (Registered name), r)
      | None \<Rightarrow> ComponentDefaults_init r name [] [])"

text \<open>
  Reading the object behind a reference. A reference handed out by the constructor or
  by \<open>get\<close> names a key of \<open>ALL\<close>; the \<open>None\<close> branch is never reached from them.
\<close>

fun deref :: "registry \<Rightarrow> cd_ref \<Rightarrow> component_defaults" where
  "deref r (Unregistered obj) = obj"
| "deref r (Registered name) = (case map_of r name of Some obj \<Rightarrow> obj | None \<Rightarrow> empty_defaults)"

text \<open>\<open>ref.excludes.extend(xs)\<close>: an unregistered object is reachable from nowhere else.\<close>

fun excludes_extend :: "registry \<Rightarrow> cd_ref \<Rightarrow> string list \<Rightarrow> registry" where
  "excludes_extend r (Unregistered obj) xs = r"
| "excludes_extend r (Registered name) xs =
     map (\<lambda>(k, obj). if k = name then (k, obj\<lparr>cd_excludes := cd_excludes obj @ xs\<rparr>) else (k, obj)) r"

text \<open>A module-level statement \<open>ComponentDefaults(name, includes=..., excludes=...)\<close>.\<close>

definition define_component ::
  "string \<Rightarrow> string list \<Rightarrow> string list \<Rightarrow> registry \<Rightarrow> error + registry" where
  "define_component name incs excs r =
     (case ComponentDefaults_init r name incs excs of
        (Inl e, _) \<Rightarrow> Inl e
      | (Inr _, r') \<Rightarrow> Inr r')"

text \<open>
  A module-level statement
  \<open>ComponentDefaults.get(a).excludes.extend(ComponentDefaults.get(b).includes)\<close>:
  the receiver is evaluated first, then the argument, then the list is extended in place.
\<close>

definition extend_excludes :: "string \<Rightarrow> string \<Rightarrow> registry \<Rightarrow> error + registry" where
  "extend_excludes a b r =
     (case ComponentDefaults_get r a of
        (Inl e, _) \<Rightarrow> Inl e
      | (Inr pa, r1) \<Rightarrow>
          (case ComponentDefaults_get r1 b of
             (Inl e, _) \<Rightarrow> Inl e
           | (Inr pb, r2) \<Rightarrow> Inr (excludes_extend r2 pa (cd_includes (deref r2 pb)))))"

text \<open>Sequencing of statements: an exception ends the module's execution.\<close>

fun run_statements :: "(registry \<Rightarrow> error + registry) list \<Rightarrow> registry \<Rightarrow> error + registry" where
  "run_statements [] r = Inr r"
| "run_statements (s # ss) r = (case s r of Inl e \<Rightarrow> Inl e | Inr r' \<Rightarrow> run_statements ss r')"

text \<open>The module-level statements of lines 68 to 124, in order, run on the empty \<open>ALL\<close>.\<close>

definition module_statements :: "(registry \<Rightarrow> error + registry) list" where
  "module_statements =
     [define_component ''dbg'' [''.build-id/**/*.debug''] [],
      define_component ''dev''
        [''**/*.a'', ''**/*.lib'', ''**/cmake/**'', ''**/include/**'',
         ''**/share/modulefiles/**'', ''**/pkgconfig/**''] [],
      define_component ''lib''
        [''**/*.dll'', ''**/*.dylib'', ''**/*.dylib.*'', ''**/*.so'', ''**/*.so.*''] [],
      define_component ''run'' [] [],
      define_component ''doc'' [''**/share/doc/**''] [],
      extend_excludes ''dev'' ''lib'',
      extend_excludes ''dev'' ''run'',
      extend_excludes ''dev'' ''doc'',
      extend_excludes ''lib'' ''dev'',
      extend_excludes ''lib'' ''run'',
      extend_excludes ''lib'' ''doc'',
      extend_excludes ''run'' ''dev'',
      extend_excludes ''run'' ''lib'',
      extend_excludes ''run'' ''doc'']"

definition module_init :: "error + registry" where
  "module_init = run_statements module_statements []"

section \<open>Paths, the file system and the PatternMatcher\<close>

text \<open>
  A \<open>pathlib.Path\<close> is kept as the expression that built it: \<open>Path s\<close> is \<open>Path(s)\<close>,
  \<open>Join p s\<close> is \<open>p / s\<close> and \<open>Parent p\<close> is \<open>p.parent\<close>. What a path denotes is the
  file system's business, so no normalisation rule of \<open>pathlib\<close> is built in.
\<close>

datatype path = Path string | Join path string | Parent path

text \<open>An \<open>os.DirEntry\<close>, of which the code reads the attribute \<open>path\<close> only.\<close>

datatype dir_entry = DirEntry (entry_path: string)

text \<open>
  Modelled from the spec: the class \<open>PatternMatcher\<close>, whose module
  \<open>_therock_utils.pattern_match\<close> is not among the sources. An instance is a record
  of the three pattern lists given to the constructor and of the attribute \<open>all\<close>, an
  insertion-ordered dictionary from a relative path to a directory entry, empty in a
  new instance. Its methods are parameters of the model, see \<open>fs_ops\<close> below.
\<close>

record pattern_matcher =
  pm_includes :: "string list"
  pm_excludes :: "string list"
  pm_force_includes :: "string list"
  pm_all :: "(string \<times> dir_entry) list"

definition PatternMatcher :: "string list \<Rightarrow> string list \<Rightarrow> string list \<Rightarrow> pattern_matcher" where
  "PatternMatcher incs excs force =
     \<lparr>pm_includes = incs, pm_excludes = excs, pm_force_includes = force, pm_all = []\<rparr>"

text \<open>
  The operations the two commands perform on the outside world, over a type \<open>'fs\<close> of
  file system states. Each is a parameter: \<open>fs_exists\<close> is \<open>Path.exists\<close>, \<open>fs_rmtree\<close>
  is \<open>shutil.rmtree\<close>, \<open>fs_mkdir\<close> is \<open>Path.mkdir(parents=True, exist_ok=True)\<close>,
  \<open>fs_unlink\<close>, \<open>fs_read_text\<close> and \<open>fs_write_text\<close> are the methods of \<open>Path\<close>,
  \<open>fs_open_archive\<close> is \<open>tarfile.TarFile.open(p, mode="x:xz", preset=level)\<close>,
  \<open>pm_add_basedir\<close> and \<open>pm_copy_to\<close> are the methods of \<open>PatternMatcher\<close>
  (\<open>copy_to\<close> with its arguments \<open>destdir\<close>, \<open>destprefix\<close> and \<open>remove_dest\<close>).
  An operation that raises returns \<open>Inl\<close>.
\<close>

record 'fs fs_ops =
  fs_exists :: "'fs \<Rightarrow> path \<Rightarrow> bool"
  fs_rmtree :: "'fs \<Rightarrow> path \<Rightarrow> error + 'fs"
  fs_mkdir :: "'fs \<Rightarrow> path \<Rightarrow> error + 'fs"
  fs_unlink :: "'fs \<Rightarrow> path \<Rightarrow> error + 'fs"
  fs_read_text :: "'fs \<Rightarrow> path \<Rightarrow> error + string"
  fs_write_text :: "'fs \<Rightarrow> path \<Rightarrow> string \<Rightarrow> error + 'fs"
  fs_open_archive :: "'fs \<Rightarrow> path \<Rightarrow> int \<Rightarrow> error + 'fs"
  pm_add_basedir :: "'fs \<Rightarrow> pattern_matcher \<Rightarrow> path \<Rightarrow> error + pattern_matcher"
  pm_copy_to :: "'fs \<Rightarrow> pattern_matcher \<Rightarrow> path \<Rightarrow> string \<Rightarrow> bool \<Rightarrow> error + 'fs"

section \<open>Strings\<close>

text \<open>\<open>sep.join(xs)\<close>.\<close>

fun join :: "string \<Rightarrow> string list \<Rightarrow> string" where
  "join sep [] = []"
| "join sep [x] = x"
| "join sep (x # y # ys) = x @ sep @ join sep (y # ys)"

text \<open>
  The line boundaries of \<open>str.splitlines\<close> among the first 256 code points: line feed,
  carriage return, vertical tab, form feed, the file, group and record separators and
  the next-line control.
\<close>

definition linebreak :: "char \<Rightarrow> bool" where
  "linebreak c = ((of_char c :: nat) \<in> {10, 11, 12, 13, 28, 29, 30, 133})"

text \<open>
  \<open>str.splitlines()\<close>: \<open>cur\<close> holds the characters of the line being read. A carriage
  return followed by a line feed is one boundary, and no empty last line is produced
  after a final boundary.
\<close>

fun splitlines_from :: "string \<Rightarrow> string \<Rightarrow> string list" where
  "splitlines_from cur [] = (if cur = [] then [] else [cur])"
| "splitlines_from cur [c] = (if linebreak c then [cur] else [cur @ [c]])"
| "splitlines_from cur (c # d # cs) =
     (if c = CHR 0x0D \<and> d = CHR 0x0A then cur # splitlines_from [] cs
      else if linebreak c then cur # splitlines_from [] (d # cs)
      else splitlines_from (cur @ [c]) (d # cs))"

definition splitlines :: "string \<Rightarrow> string list" where
  "splitlines s = splitlines_from [] s"

section \<open>do_artifact\<close>

text \<open>
  The descriptor as the docstring of \<open>do_artifact\<close> gives it: under \<open>components\<close>, a
  table from component names to tables from stage directories to records. The pattern
  keys hold a string or a list of strings (the annotation of \<open>_dup_list_or_str\<close>);
  tables are association lists in document order. A missing key is \<open>None\<close>.
\<close>

datatype str_or_list = Str string | StrList "string list"

record basedir_record =
  br_default_patterns :: "bool option"
  br_include :: "str_or_list option"
  br_exclude :: "str_or_list option"
  br_force_include :: "str_or_list option"
  br_optional :: "pyval option"

type_synonym component_record = "(string \<times> basedir_record) list"

record descriptor =
  components :: "(string \<times> component_record) list option"

record artifact_args =
  arg_descriptor :: descriptor
  arg_component :: string
  arg_output_dir :: path
  arg_root_dir :: path

text \<open>\<open>_dup_list_or_str\<close>: a falsy value (missing, empty string, empty list) gives \<open>[]\<close>.\<close>

fun dup_list_or_str :: "str_or_list option \<Rightarrow> string list" where
  "dup_list_or_str None = []"
| "dup_list_or_str (Some (Str s)) = (if s = [] then [] else [s])"
| "dup_list_or_str (Some (StrList xs)) = (if xs = [] then [] else xs)"

text \<open>
  \<open>ComponentDefaults.ALL.get(component_name, ComponentDefaults())\<close>: the default is
  the object the constructor builds from no arguments. Its name is empty, so the
  constructor neither raises nor registers it, and \<open>ALL\<close> is read only.
\<close>

definition ALL_get_or_default :: "registry \<Rightarrow> string \<Rightarrow> component_defaults" where
  "ALL_get_or_default r component_name =
     (case map_of r component_name of
        Some obj \<Rightarrow> obj
      | None \<Rightarrow>
          (case ComponentDefaults_init r [] [] [] of
             (Inr ref, r') \<Rightarrow> deref r' ref
           | (Inl e, r') \<Rightarrow> empty_defaults))"

text \<open>
  \<open>descriptor["components"][component_name]\<close>, with \<open>{}\<close> when either key is missing
  (the \<open>KeyError\<close> handler).
\<close>

definition component_record_of :: "descriptor \<Rightarrow> string \<Rightarrow> component_record" where
  "component_record_of d component_name =
     (case components d of
        None \<Rightarrow> []
      | Some cs \<Rightarrow> (case map_of cs component_name of None \<Rightarrow> [] | Some cr \<Rightarrow> cr))"

text \<open>
  The loop over \<open>component_record.items()\<close>. The state is the file system and the list
  \<open>all_basedir_relpaths\<close>; \<open>continue\<close> goes to the next item with both unchanged.
\<close>

fun artifact_loop ::
  "'fs fs_ops \<Rightarrow> string \<Rightarrow> registry \<Rightarrow> artifact_args \<Rightarrow> 'fs \<Rightarrow> string list \<Rightarrow>
   component_record \<Rightarrow> error + 'fs \<times> string list" where
  "artifact_loop ops platform_system r args fs all_basedir_relpaths [] =
     Inr (fs, all_basedir_relpaths)"
| "artifact_loop ops platform_system r args fs all_basedir_relpaths
     ((basedir_relpath, basedir_record) # rest) =
     (let use_default_patterns =
            (case br_default_patterns basedir_record of None \<Rightarrow> True | Some b \<Rightarrow> b);
          basedir = Join (arg_root_dir args) basedir_relpath;
          optional = evaluate_optional platform_system (br_optional basedir_record)
      in if optional \<and> \<not> fs_exists ops fs basedir
         then artifact_loop ops platform_system r args fs all_basedir_relpaths rest
         else
           (let all_basedir_relpaths' = all_basedir_relpaths @ [basedir_relpath];
                force_includes = dup_list_or_str (br_force_include basedir_record);
                includes = dup_list_or_str (br_include basedir_record) @
                  (if use_default_patterns
                   then cd_includes (ALL_get_or_default r (arg_component args)) else []);
                excludes = dup_list_or_str (br_exclude basedir_record) @
                  (if use_default_patterns
                   then cd_excludes (ALL_get_or_default r (arg_component args)) else []);
                pm = PatternMatcher includes excludes force_includes
            in case pm_add_basedir ops fs pm basedir of
                 Inl e \<Rightarrow> Inl e
               | Inr pm' \<Rightarrow>
                   (case pm_copy_to ops fs pm' (arg_output_dir args) (basedir_relpath @ ''/'') False of
                      Inl e \<Rightarrow> Inl e
                    | Inr fs' \<Rightarrow>
                        artifact_loop ops platform_system r args fs' all_basedir_relpaths' rest)))"

text \<open>Setting up the output directory: removed if it exists, then created.\<close>

definition artifact_output_dir :: "'fs fs_ops \<Rightarrow> path \<Rightarrow> 'fs \<Rightarrow> error + 'fs" where
  "artifact_output_dir ops output_dir fs =
     (case (if fs_exists ops fs output_dir then fs_rmtree ops fs output_dir else Inr fs) of
        Inl e \<Rightarrow> Inl e
      | Inr fs1 \<Rightarrow> fs_mkdir ops fs1 output_dir)"

text \<open>The text written to the manifest.\<close>

definition manifest_text :: "string list \<Rightarrow> string" where
  "manifest_text all_basedir_relpaths = join [CHR 0x0A] all_basedir_relpaths @ [CHR 0x0A]"

text \<open>
  \<open>do_artifact\<close>, after the descriptor has been loaded: the result is the file system
  after the manifest has been written, or the first exception.
\<close>

definition do_artifact ::
  "'fs fs_ops \<Rightarrow> string \<Rightarrow> registry \<Rightarrow> artifact_args \<Rightarrow> 'fs \<Rightarrow> error + 'fs" where
  "do_artifact ops platform_system r args fs =
     (case artifact_output_dir ops (arg_output_dir args) fs of
        Inl e \<Rightarrow> Inl e
      | Inr fs2 \<Rightarrow>
          (case artifact_loop ops platform_system r args fs2 []
                  (component_record_of (arg_descriptor args) (arg_component args)) of
             Inl e \<Rightarrow> Inl e
           | Inr (fs3, all_basedir_relpaths) \<Rightarrow>
               fs_write_text ops fs3 (Join (arg_output_dir args) ''artifact_manifest.txt'')
                 (manifest_text all_basedir_relpaths)))"

section \<open>do_artifact_archive\<close>

text \<open>
  The archive is the sequence of calls \<open>arc.add(name, arcname=..., recursive=False)\<close>
  made on it, each a member with the path of the file added and its name in the archive.
  Adding a file that has just been read or enumerated is taken to succeed.
\<close>

record member =
  member_source :: path
  arcname :: string

record archive_args =
  arg_artifact :: "path list"
  arg_o :: path
  arg_compression_level :: int

text \<open>The loop \<open>for subpath, dir_entry in pm.all.items()\<close>.\<close>

fun add_entries :: "string \<Rightarrow> (string \<times> dir_entry) list \<Rightarrow> member list \<Rightarrow> member list" where
  "add_entries relpath [] arc = arc"
| "add_entries relpath ((subpath, dir_entry) # rest) arc =
     (let fullpath = relpath @ ''/'' @ subpath
      in add_entries relpath rest
           (arc @ [\<lparr>member_source = Path (entry_path dir_entry), arcname = fullpath\<rparr>]))"

text \<open>The loop \<open>for relpath in relpaths\<close>, with its two \<open>continue\<close> statements.\<close>

fun add_relpaths ::
  "'fs fs_ops \<Rightarrow> 'fs \<Rightarrow> path \<Rightarrow> string list \<Rightarrow> member list \<Rightarrow> error + member list" where
  "add_relpaths ops fs artifact_path [] arc = Inr arc"
| "add_relpaths ops fs artifact_path (relpath # rest) arc =
     (if relpath = [] then add_relpaths ops fs artifact_path rest arc
      else
        (let source_dir = Join artifact_path relpath
         in if \<not> fs_exists ops fs source_dir then add_relpaths ops fs artifact_path rest arc
            else
              (case pm_add_basedir ops fs (PatternMatcher [] [] []) source_dir of
                 Inl e \<Rightarrow> Inl e
               | Inr pm \<Rightarrow>
                   add_relpaths ops fs artifact_path rest (add_entries relpath (pm_all pm) arc))))"

text \<open>
  The loop \<open>for artifact_path in args.artifact\<close>. The name of the manifest member is
  \<open>manifest_path.name\<close>, the last component of \<open>artifact_path / "artifact_manifest.txt"\<close>.
\<close>

fun add_artifacts ::
  "'fs fs_ops \<Rightarrow> 'fs \<Rightarrow> path list \<Rightarrow> member list \<Rightarrow> error + member list" where
  "add_artifacts ops fs [] arc = Inr arc"
| "add_artifacts ops fs (artifact_path # rest) arc =
     (let manifest_path = Join artifact_path ''artifact_manifest.txt''
      in case fs_read_text ops fs manifest_path of
           Inl e \<Rightarrow> Inl e
         | Inr text \<Rightarrow>
             (let relpaths = splitlines text;
                  arc1 = arc @ [\<lparr>member_source = manifest_path, arcname = ''artifact_manifest.txt''\<rparr>]
              in case add_relpaths ops fs artifact_path relpaths arc1 of
                   Inl e \<Rightarrow> Inl e
                 | Inr arc2 \<Rightarrow> add_artifacts ops fs rest arc2))"

text \<open>
  The statements before the loop: an existing output file is unlinked, the parent
  directory created and the archive opened for exclusive creation.
\<close>

definition archive_open :: "'fs fs_ops \<Rightarrow> archive_args \<Rightarrow> 'fs \<Rightarrow> error + 'fs" where
  "archive_open ops args fs =
     (case (if fs_exists ops fs (arg_o args) then fs_unlink ops fs (arg_o args) else Inr fs) of
        Inl e \<Rightarrow> Inl e
      | Inr fs1 \<Rightarrow>
          (case fs_mkdir ops fs1 (Parent (arg_o args)) of
             Inl e \<Rightarrow> Inl e
           | Inr fs2 \<Rightarrow> fs_open_archive ops fs2 (arg_o args) (arg_compression_level args)))"

text \<open>
  \<open>do_artifact_archive\<close> up to the end of the \<open>with\<close> statement: the result is the
  archive as it is closed, or the first exception. The files being added are read from
  the state in which the archive was opened. The hash file, written afterwards from the
  closed archive by \<open>_therock_utils.hash_util\<close>, is not modelled.
\<close>

definition do_artifact_archive ::
  "'fs fs_ops \<Rightarrow> archive_args \<Rightarrow> 'fs \<Rightarrow> error + member list" where
  "do_artifact_archive ops args fs =
     (case archive_open ops args fs of
        Inl e \<Rightarrow> Inl e
      | Inr fs3 \<Rightarrow> add_artifacts ops fs3 (arg_artifact args) [])"

text \<open>
  What one line of a manifest contributes, stated on its own: nothing for an empty line
  or a subdirectory that does not exist, and otherwise one member for every entry the
  matcher enumerates, named \<open>relpath/subpath\<close>, in the matcher's order.
\<close>

definition relpath_members ::
  "'fs fs_ops \<Rightarrow> 'fs \<Rightarrow> path \<Rightarrow> string \<Rightarrow> error + member list" where
  "relpath_members ops fs artifact_path relpath =
     (if relpath = [] \<or> \<not> fs_exists ops fs (Join artifact_path relpath) then Inr []
      else
        (case pm_add_basedir ops fs (PatternMatcher [] [] []) (Join artifact_path relpath) of
           Inl e \<Rightarrow> Inl e
         | Inr pm \<Rightarrow>
             Inr (map (\<lambda>(subpath, dir_entry).
                    \<lparr>member_source = Path (entry_path dir_entry),
                     arcname = relpath @ ''/'' @ subpath\<rparr>) (pm_all pm))))"

definition manifest_member :: "path \<Rightarrow> member" where
  "manifest_member artifact_path =
     \<lparr>member_source = Join artifact_path ''artifact_manifest.txt'',
      arcname = ''artifact_manifest.txt''\<rparr>"

section \<open>A file system for examples\<close>

text \<open>
  Modelled from the spec: \<open>PatternMatcher.add_basedir\<close>, whose module
  \<open>_therock_utils.pattern_match\<close> is not among the sources. It scans the directory tree
  rooted at the base directory and records every file under its path relative to the
  base directory; the traversal order over a base directory is the file system's natural
  directory-walk order, not sorted; a later entry for a relative path replaces an
  earlier one. A directory is the list of its children in the order the file system
  enumerates them. \<open>scan_children\<close> walks it with the relative prefix \<open>reldir\<close> below the
  directory whose path is \<open>root\<close>. The patterns of a matcher are carried in its record
  and not evaluated: the archive command builds its matcher without patterns and reads
  every entry of \<open>all\<close>.
\<close>

datatype node = File | Dir "(string \<times> node) list"

fun scan_node :: "string \<Rightarrow> string \<Rightarrow> string \<times> node \<Rightarrow> (string \<times> dir_entry) list"
  and scan_children :: "string \<Rightarrow> string \<Rightarrow> (string \<times> node) list \<Rightarrow> (string \<times> dir_entry) list" where
  "scan_node root reldir (name, File) =
     [(reldir @ name, DirEntry (root @ ''/'' @ reldir @ name))]"
| "scan_node root reldir (name, Dir children) =
     scan_children root (reldir @ name @ ''/'') children"
| "scan_children root reldir [] = []"
| "scan_children root reldir (child # children) =
     scan_node root reldir child @ scan_children root reldir children"

text \<open>\<open>d[k] = v\<close> on an insertion-ordered dictionary.\<close>

fun dict_set :: "'k \<Rightarrow> 'v \<Rightarrow> ('k \<times> 'v) list \<Rightarrow> ('k \<times> 'v) list" where
  "dict_set k v [] = [(k, v)]"
| "dict_set k v ((k', v') # kvs) = (if k = k' then (k, v) # kvs else (k', v') # dict_set k v kvs)"

fun dict_update :: "('k \<times> 'v) list \<Rightarrow> ('k \<times> 'v) list \<Rightarrow> ('k \<times> 'v) list" where
  "dict_update d [] = d"
| "dict_update d ((k, v) # kvs) = dict_update (dict_set k v d) kvs"

text \<open>
  A file system that holds text files and directory trees under the paths that name
  them, and keeps a journal of the changes requested. Changes always succeed; reading a
  missing file and scanning a missing directory raise.
\<close>

datatype change =
    Rmtree path
  | Mkdir path
  | Unlink path
  | WriteText path string
  | OpenArchive path int
  | CopyTo pattern_matcher path string bool

record journal_fs =
  texts :: "(path \<times> string) list"
  trees :: "(path \<times> string \<times> (string \<times> node) list) list"
  journal :: "change list"

definition journal_exists :: "journal_fs \<Rightarrow> path \<Rightarrow> bool" where
  "journal_exists fs p = (p \<in> fst ` set (texts fs) \<or> p \<in> fst ` set (trees fs))"

definition journal_remove :: "path \<Rightarrow> journal_fs \<Rightarrow> journal_fs" where
  "journal_remove p fs =
     fs\<lparr>texts := filter (\<lambda>(q, _). q \<noteq> p) (texts fs),
        trees := filter (\<lambda>(q, _). q \<noteq> p) (trees fs)\<rparr>"

text \<open>A directory that is created holds no entry.\<close>

fun entry_of :: "path \<Rightarrow> path \<Rightarrow> bool" where
  "entry_of p (Join q name) = (q = p)"
| "entry_of p q = False"

definition journal_clear :: "path \<Rightarrow> journal_fs \<Rightarrow> journal_fs" where
  "journal_clear p fs =
     fs\<lparr>texts := filter (\<lambda>(q, _). \<not> entry_of p q) (texts fs),
        trees := filter (\<lambda>(q, _). \<not> entry_of p q) (trees fs)\<rparr>"

definition journal_create :: "path \<Rightarrow> journal_fs \<Rightarrow> journal_fs" where
  "journal_create p fs =
     (if journal_exists fs p then fs
      else (journal_clear p fs)\<lparr>trees := trees (journal_clear p fs) @ [(p, [], [])]\<rparr>)"

definition record_change :: "change \<Rightarrow> journal_fs \<Rightarrow> journal_fs" where
  "record_change c fs = fs\<lparr>journal := journal fs @ [c]\<rparr>"

definition journal_ops :: "journal_fs fs_ops" where
  "journal_ops =
     \<lparr>fs_exists = journal_exists,
      fs_rmtree = (\<lambda>fs p. Inr (record_change (Rmtree p) (journal_clear p (journal_remove p fs)))),
      fs_mkdir = (\<lambda>fs p. Inr (record_change (Mkdir p) (journal_create p fs))),
      fs_unlink = (\<lambda>fs p. Inr (record_change (Unlink p) (journal_remove p fs))),
      fs_read_text = (\<lambda>fs p. case map_of (texts fs) p of
         None \<Rightarrow> Inl (OSError ''No such file or directory'') | Some t \<Rightarrow> Inr t),
      fs_write_text = (\<lambda>fs p t. Inr (record_change (WriteText p t)
         (fs\<lparr>texts := dict_set p t (texts fs)\<rparr>))),
      fs_open_archive = (\<lambda>fs p level. Inr (record_change (OpenArchive p level) fs)),
      pm_add_basedir = (\<lambda>fs pm p. case map_of (trees fs) p of
         None \<Rightarrow> Inl (OSError ''No such file or directory'')
       | Some (root, children) \<Rightarrow>
           Inr (pm\<lparr>pm_all := dict_update (pm_all pm) (scan_children root [] children)\<rparr>)),
      pm_copy_to = (\<lambda>fs pm destdir destprefix remove_dest.
         Inr (record_change (CopyTo pm destdir destprefix remove_dest) fs))\<rparr>"

section \<open>Auxiliary notions for the statements\<close>

text \<open>The values \<open>evaluate_optional\<close> treats as lists of platform names.\<close>

fun is_str_or_list :: "pyval \<Rightarrow> bool" where
  "is_str_or_list (VStr s) = True"
| "is_str_or_list (VList vs) = True"
| "is_str_or_list v = False"

text \<open>The registry the module leaves behind when it has been imported.\<close>

definition builtin_registry :: registry where
  "builtin_registry = (case module_init of Inl e \<Rightarrow> [] | Inr r \<Rightarrow> r)"

text \<open>
  Running a function that may raise over a list and concatenating what it returns; the
  first exception, in list order, is the result.
\<close>

fun collect :: "('a \<Rightarrow> error + 'b list) \<Rightarrow> 'a list \<Rightarrow> error + 'b list" where
  "collect f [] = Inr []"
| "collect f (x # xs) =
     (case f x of
        Inl e \<Rightarrow> Inl e
      | Inr ys \<Rightarrow> (case collect f xs of Inl e \<Rightarrow> Inl e | Inr zs \<Rightarrow> Inr (ys @ zs)))"

text \<open>The member added for one entry of \<open>pm.all\<close>.\<close>

definition entry_member :: "string \<Rightarrow> string \<times> dir_entry \<Rightarrow> member" where
  "entry_member relpath = (\<lambda>(subpath, dir_entry).
     \<lparr>member_source = Path (entry_path dir_entry), arcname = relpath @ ''/'' @ subpath\<rparr>)"

text \<open>
  What one artifact directory contributes, stated on its own: its manifest member,
  followed by the members of the lines of its manifest, in order.
\<close>

definition artifact_members :: "'fs fs_ops \<Rightarrow> 'fs \<Rightarrow> path \<Rightarrow> error + member list" where
  "artifact_members ops fs artifact_path =
     (case fs_read_text ops fs (Join artifact_path ''artifact_manifest.txt'') of
        Inl e \<Rightarrow> Inl e
      | Inr text \<Rightarrow>
          (case collect (relpath_members ops fs artifact_path) (splitlines text) of
             Inl e \<Rightarrow> Inl e
           | Inr payload \<Rightarrow> Inr (manifest_member artifact_path # payload)))"

text \<open>No relative path contains a line boundary of \<open>splitlines\<close>.\<close>

definition no_linebreaks :: "string list \<Rightarrow> bool" where
  "no_linebreaks rels = list_all (list_all (\<lambda>c. \<not> linebreak c)) rels"

text \<open>
  An item of the component record contributes unless it is optional on this platform
  and its base directory does not exist.
\<close>

definition contributes ::
  "'fs fs_ops \<Rightarrow> string \<Rightarrow> artifact_args \<Rightarrow> 'fs \<Rightarrow> string \<times> basedir_record \<Rightarrow> bool" where
  "contributes ops platform_system args fs = (\<lambda>(basedir_relpath, basedir_record).
     \<not> (evaluate_optional platform_system (br_optional basedir_record) \<and>
        \<not> fs_exists ops fs (Join (arg_root_dir args) basedir_relpath)))"

text \<open>
  The matcher built for an item: the patterns of its record, followed by the defaults of
  the component unless the record turns them off.
\<close>

definition artifact_matcher :: "registry \<Rightarrow> string \<Rightarrow> basedir_record \<Rightarrow> pattern_matcher" where
  "artifact_matcher r component_name basedir_record =
     (let defaults = (if br_default_patterns basedir_record = Some False then empty_defaults
                      else ALL_get_or_default r component_name)
      in PatternMatcher
           (dup_list_or_str (br_include basedir_record) @ cd_includes defaults)
           (dup_list_or_str (br_exclude basedir_record) @ cd_excludes defaults)
           (dup_list_or_str (br_force_include basedir_record)))"

text \<open>
  What one item of the component record does to the file system: an item that
  contributes has its base directory scanned and the matches copied below the output
  directory, under the item's relative path; any other leaves the file system as it is.
\<close>

definition artifact_item ::
  "'fs fs_ops \<Rightarrow> string \<Rightarrow> registry \<Rightarrow> artifact_args \<Rightarrow> 'fs \<Rightarrow> string \<times> basedir_record \<Rightarrow>
   error + 'fs" where
  "artifact_item ops platform_system r args fs = (\<lambda>(basedir_relpath, basedir_record).
     if contributes ops platform_system args fs (basedir_relpath, basedir_record)
     then (case pm_add_basedir ops fs (artifact_matcher r (arg_component args) basedir_record)
                  (Join (arg_root_dir args) basedir_relpath) of
             Inl e \<Rightarrow> Inl e
           | Inr pm \<Rightarrow>
               pm_copy_to ops fs pm (arg_output_dir args) (basedir_relpath @ ''/'') False)
     else Inr fs)"

text \<open>
  The items run in order, each in the file system the items before it have left; the
  result lists the file system after each item.
\<close>

fun run_items ::
  "'fs fs_ops \<Rightarrow> string \<Rightarrow> registry \<Rightarrow> artifact_args \<Rightarrow> 'fs \<Rightarrow> component_record \<Rightarrow>
   error + 'fs list" where
  "run_items ops platform_system r args fs [] = Inr []"
| "run_items ops platform_system r args fs (item # rest) =
     (case artifact_item ops platform_system r args fs item of
        Inl e \<Rightarrow> Inl e
      | Inr fs' \<Rightarrow>
          (case run_items ops platform_system r args fs' rest of
             Inl e \<Rightarrow> Inl e
           | Inr ss \<Rightarrow> Inr (fs' # ss)))"

text \<open>
  The relative paths of the items that contribute, each judged in the file system in
  which it is reached: the second list holds the file system before each item.
\<close>

fun contributing ::
  "'fs fs_ops \<Rightarrow> string \<Rightarrow> artifact_args \<Rightarrow> component_record \<Rightarrow> 'fs list \<Rightarrow> string list" where
  "contributing ops platform_system args (item # rest) (s # ss) =
     (if contributes ops platform_system args s item
      then fst item # contributing ops platform_system args rest ss
      else contributing ops platform_system args rest ss)"
| "contributing ops platform_system args cr ss = []"

section \<open>Example inputs\<close>

text \<open>
  Two artifact directories. The manifest of the first lists a subdirectory that exists,
  an empty line and a subdirectory that does not exist. The two listings of
  \<open>stage/lib\<close> hold the same files and differ in the order of enumeration only.
\<close>

definition lib_artifact :: path where
  "lib_artifact = Path ''build/artifacts/core_lib''"

definition run_artifact :: path where
  "run_artifact = Path ''build/artifacts/core_run''"

definition lib_children :: "(string \<times> node) list" where
  "lib_children = [(''liba.so'', File), (''sub'', Dir [(''libb.so'', File)])]"


definition example_fs :: "(string \<times> node) list \<Rightarrow> change list \<Rightarrow> journal_fs" where
  "example_fs children changes =
     \<lparr>texts = [(Join lib_artifact ''artifact_manifest.txt'',
                 manifest_text [''stage/lib'', [], ''stage/gone'']),
               (Join run_artifact ''artifact_manifest.txt'', manifest_text [''stage/bin''])],
      trees = [(Join lib_artifact ''stage/lib'', ''build/artifacts/core_lib/stage/lib'', children),
               (Join run_artifact ''stage/bin'', ''build/artifacts/core_run/stage/bin'',
                  [(''tool'', File)])],
      journal = changes\<rparr>"


definition archive_two :: archive_args where
  "archive_two =
     \<lparr>arg_artifact = [lib_artifact, run_artifact], arg_o = Path ''out/core.tar.xz'',
      arg_compression_level = 6\<rparr>"

definition liba_member :: member where
  "liba_member = \<lparr>member_source = Path ''build/artifacts/core_lib/stage/lib/liba.so'',
                   arcname = ''stage/lib/liba.so''\<rparr>"

definition libb_member :: member where
  "libb_member = \<lparr>member_source = Path ''build/artifacts/core_lib/stage/lib/sub/libb.so'',
                   arcname = ''stage/lib/sub/libb.so''\<rparr>"

definition tool_member :: member where
  "tool_member = \<lparr>member_source = Path ''build/artifacts/core_run/stage/bin/tool'',
                   arcname = ''stage/bin/tool''\<rparr>"

definition lib_matcher :: pattern_matcher where
  "lib_matcher = \<lparr>pm_includes = [], pm_excludes = [], pm_force_includes = [],
     pm_all = [(''liba.so'', DirEntry ''build/artifacts/core_lib/stage/lib/liba.so''),
               (''sub/libb.so'', DirEntry ''build/artifacts/core_lib/stage/lib/sub/libb.so'')]\<rparr>"

text \<open>
  A build tree with two stage directories and a descriptor whose component \<open>lib\<close>
  names three, the second optional on Linux and missing from the tree; the file system
  states the run on Linux goes through, and the two matchers it copies from.
\<close>

definition plain_record :: basedir_record where
  "plain_record = \<lparr>br_default_patterns = None, br_include = None, br_exclude = None,
     br_force_include = None, br_optional = None\<rparr>"

definition core_entry :: "string \<times> basedir_record" where
  "core_entry = (''core/stage'', plain_record\<lparr>br_include := Some (Str ''bin/**'')\<rparr>)"

definition extras_entry :: "string \<times> basedir_record" where
  "extras_entry = (''extras/stage'', plain_record\<lparr>br_optional := Some (VStr ''linux'')\<rparr>)"

definition math_entry :: "string \<times> basedir_record" where
  "math_entry = (''math/stage'', plain_record\<lparr>br_default_patterns := Some False,
               br_include := Some (StrList [''lib/**''])\<rparr>)"

definition example_descriptor :: descriptor where
  "example_descriptor = \<lparr>components = Some [(''lib'', [core_entry, extras_entry, math_entry])]\<rparr>"

definition output_path :: path where
  "output_path = Path ''build/artifacts/core_lib''"

definition example_args :: "string \<Rightarrow> artifact_args" where
  "example_args component =
     \<lparr>arg_descriptor = example_descriptor, arg_component = component,
      arg_output_dir = output_path, arg_root_dir = Path ''build''\<rparr>"

definition build_fs :: journal_fs where
  "build_fs =
     \<lparr>texts = [],
      trees = [(Join (Path ''build'') ''core/stage'', ''build/core/stage'',
                 [(''lib'', Dir [(''libcore.so'', File)])]),
               (Join (Path ''build'') ''math/stage'', ''build/math/stage'',
                 [(''lib'', Dir [(''libm.so'', File)])])],
      journal = []\<rparr>"

definition build_fs2 :: journal_fs where
  "build_fs2 = build_fs\<lparr>trees := trees build_fs @ [(output_path, [], [])],
                        journal := [Mkdir output_path]\<rparr>"

definition core_matcher :: pattern_matcher where
  "core_matcher =
     \<lparr>pm_includes = [''bin/**'', ''**/*.dll'', ''**/*.dylib'', ''**/*.dylib.*'', ''**/*.so'',
                     ''**/*.so.*''],
      pm_excludes = [''**/*.a'', ''**/*.lib'', ''**/cmake/**'', ''**/include/**'',
                     ''**/share/modulefiles/**'', ''**/pkgconfig/**'', ''**/share/doc/**''],
      pm_force_includes = [],
      pm_all = [(''lib/libcore.so'', DirEntry ''build/core/stage/lib/libcore.so'')]\<rparr>"

definition math_matcher :: pattern_matcher where
  "math_matcher =
     \<lparr>pm_includes = [''lib/**''], pm_excludes = [], pm_force_includes = [],
      pm_all = [(''lib/libm.so'', DirEntry ''build/math/stage/lib/libm.so'')]\<rparr>"

definition build_fs1 :: journal_fs where
  "build_fs1 = build_fs2\<lparr>journal := journal build_fs2 @
     [CopyTo core_matcher output_path ''core/stage/'' False]\<rparr>"

definition build_fs3 :: journal_fs where
  "build_fs3 = build_fs1\<lparr>journal := journal build_fs1 @
     [CopyTo math_matcher output_path ''math/stage/'' False]\<rparr>"

text \<open>
  A build tree whose output directory exists already and holds a manifest and a file
  from an earlier run; the file systems the two example runs end in.
\<close>

definition stale_fs :: journal_fs where
  "stale_fs = build_fs\<lparr>
     texts := [(Join output_path ''artifact_manifest.txt'', manifest_text [''old/stage'']),
               (Join output_path ''stale.txt'', ''left over'')],
     trees := trees build_fs @ [(output_path, ''build/artifacts/core_lib'', [])]\<rparr>"

definition lib_final :: journal_fs where
  "lib_final = build_fs3\<lparr>
     texts := [(Join output_path ''artifact_manifest.txt'',
                manifest_text [''core/stage'', ''math/stage''])],
     journal := journal build_fs3 @
       [WriteText (Join output_path ''artifact_manifest.txt'')
          (manifest_text [''core/stage'', ''math/stage''])]\<rparr>"

definition doc_final :: journal_fs where
  "doc_final = build_fs\<lparr>
     texts := [(Join output_path ''artifact_manifest.txt'', [CHR 0x0A])],
     trees := trees build_fs @ [(output_path, [], [])],
     journal := [Rmtree output_path, Mkdir output_path,
                 WriteText (Join output_path ''artifact_manifest.txt'') [CHR 0x0A]]\<rparr>"

section \<open>The registry after the module has been imported\<close>

lemmas registry_defs = module_init_def module_statements_def define_component_def extend_excludes_def
      ComponentDefaults_get_def ComponentDefaults_init_def empty_defaults_def Let_def

lemma module_init_value:
  "module_init = Inr
     [(''dbg'', \<lparr>cd_includes = [''.build-id/**/*.debug''], cd_excludes = []\<rparr>),
      (''dev'', \<lparr>cd_includes = [''**/*.a'', ''**/*.lib'', ''**/cmake/**'', ''**/include/**'',
         ''**/share/modulefiles/**'', ''**/pkgconfig/**''],
        cd_excludes = [''**/*.dll'', ''**/*.dylib'', ''**/*.dylib.*'', ''**/*.so'', ''**/*.so.*'',
         ''**/share/doc/**'']\<rparr>),
      (''lib'', \<lparr>cd_includes = [''**/*.dll'', ''**/*.dylib'', ''**/*.dylib.*'', ''**/*.so'', ''**/*.so.*''],
        cd_excludes = [''**/*.a'', ''**/*.lib'', ''**/cmake/**'', ''**/include/**'',
         ''**/share/modulefiles/**'', ''**/pkgconfig/**'', ''**/share/doc/**'']\<rparr>),
      (''run'', \<lparr>cd_includes = [],
        cd_excludes = [''**/*.a'', ''**/*.lib'', ''**/cmake/**'', ''**/include/**'',
         ''**/share/modulefiles/**'', ''**/pkgconfig/**'',
         ''**/*.dll'', ''**/*.dylib'', ''**/*.dylib.*'', ''**/*.so'', ''**/*.so.*'',
         ''**/share/doc/**'']\<rparr>),
      (''doc'', \<lparr>cd_includes = [''**/share/doc/**''], cd_excludes = []\<rparr>)]"
  by (simp add: registry_defs)

lemma builtin_registry_value:
  "builtin_registry =
     [(''dbg'', \<lparr>cd_includes = [''.build-id/**/*.debug''], cd_excludes = []\<rparr>),
      (''dev'', \<lparr>cd_includes = [''**/*.a'', ''**/*.lib'', ''**/cmake/**'', ''**/include/**'',
         ''**/share/modulefiles/**'', ''**/pkgconfig/**''],
        cd_excludes = [''**/*.dll'', ''**/*.dylib'', ''**/*.dylib.*'', ''**/*.so'', ''**/*.so.*'',
         ''**/share/doc/**'']\<rparr>),
      (''lib'', \<lparr>cd_includes = [''**/*.dll'', ''**/*.dylib'', ''**/*.dylib.*'', ''**/*.so'', ''**/*.so.*''],
        cd_excludes = [''**/*.a'', ''**/*.lib'', ''**/cmake/**'', ''**/include/**'',
         ''**/share/modulefiles/**'', ''**/pkgconfig/**'', ''**/share/doc/**'']\<rparr>),
      (''run'', \<lparr>cd_includes = [],
        cd_excludes = [''**/*.a'', ''**/*.lib'', ''**/cmake/**'', ''**/include/**'',
         ''**/share/modulefiles/**'', ''**/pkgconfig/**'',
         ''**/*.dll'', ''**/*.dylib'', ''**/*.dylib.*'', ''**/*.so'', ''**/*.so.*'',
         ''**/share/doc/**'']\<rparr>),
      (''doc'', \<lparr>cd_includes = [''**/share/doc/**''], cd_excludes = []\<rparr>)]"
  by (simp add: builtin_registry_def module_init_value)

text \<open>
  Claim C2. The module-level statements run without an exception, and in the registry
  they leave behind the excludes of \<open>dev\<close> contain the includes of \<open>lib\<close>, \<open>run\<close> and
  \<open>doc\<close>, the excludes of \<open>lib\<close> those of \<open>dev\<close>, \<open>run\<close> and \<open>doc\<close>, and the excludes
  of \<open>run\<close> those of \<open>dev\<close>, \<open>lib\<close> and \<open>doc\<close>.
\<close>

theorem module_init_cross_layering:
  "\<exists>r dev lib run doc. module_init = Inr r \<and>
     map_of r ''dev'' = Some dev \<and> map_of r ''lib'' = Some lib \<and>
     map_of r ''run'' = Some run \<and> map_of r ''doc'' = Some doc \<and>
     set (cd_includes lib) \<union> set (cd_includes run) \<union> set (cd_includes doc) \<subseteq> set (cd_excludes dev) \<and>
     set (cd_includes dev) \<union> set (cd_includes run) \<union> set (cd_includes doc) \<subseteq> set (cd_excludes lib) \<and>
     set (cd_includes dev) \<union> set (cd_includes lib) \<union> set (cd_includes doc) \<subseteq> set (cd_excludes run)"
  unfolding module_init_value by simp

section \<open>The platform test\<close>

lemma optional_loop_iff:
  "optional_loop system_name vs = (\<exists>v \<in> set vs. lower (py_str v) = system_name)"
  by (induction vs) auto

lemma lower_examples:
  "lower ''Linux'' = ''linux''" "lower ''LINUX'' = ''linux''" "lower ''linux'' = ''linux''"
  "lower ''Windows'' = ''windows''" "lower ''Darwin'' = ''darwin''" "lower ''True'' = ''true''"
  by code_simp+

text \<open>
  Claim C6, as amended. \<open>evaluate_optional\<close> is false on \<open>None\<close>. A string is compared
  as a one-element list and a list element by element: the result is true exactly when
  the lowercased \<open>str\<close> of some element is the lowercased platform identifier, so for a
  list of strings exactly when one of them names the platform, whatever the case of its
  letters. A value that is neither a string nor a list yields its truth value. A falsy
  value yields false, but for the empty string on a platform whose identifier is empty.
\<close>

theorem evaluate_optional_cases:
  "evaluate_optional sys None = False \<and>
   evaluate_optional sys (Some (VStr s)) = (lower s = lower sys) \<and>
   evaluate_optional sys (Some (VList (map SStr xs))) = (\<exists>x \<in> set xs. lower x = lower sys) \<and>
   evaluate_optional sys (Some (VList vs)) = (\<exists>v \<in> set vs. lower (py_str v) = lower sys) \<and>
   (\<not> is_str_or_list v \<longrightarrow> evaluate_optional sys (Some v) = truthy v) \<and>
   (\<not> truthy v \<longrightarrow> evaluate_optional sys (Some v) = (v = VStr [] \<and> sys = []))"
proof -
  have other: "\<not> is_str_or_list v \<Longrightarrow> evaluate_optional sys (Some v) = truthy v"
    by (cases v) simp_all
  have falsy: "\<not> truthy v \<Longrightarrow> evaluate_optional sys (Some v) = (v = VStr [] \<and> sys = [])"
    by (cases v) (auto simp: lower_def)
  show ?thesis
    using other falsy by (simp add: optional_loop_iff)
qed

theorem evaluate_optional_cases_witness:
  "evaluate_optional ''Linux'' (Some (VStr ''LINUX'')) \<and>
   evaluate_optional ''Linux'' (Some (VList [SStr ''Windows'', SStr ''linux''])) \<and>
   \<not> evaluate_optional ''Linux'' (Some (VList [SStr ''Windows'', SStr ''Darwin''])) \<and>
   evaluate_optional ''Linux'' (Some (VBool True)) \<and>
   \<not> evaluate_optional ''Linux'' (Some (VInt 0))"
  using evaluate_optional_cases [of "''Linux''" "''LINUX''" "[''Windows'', ''linux'']" "[SStr ''Windows'', SStr ''Darwin'']" "VBool True"]
    evaluate_optional_cases [of "''Linux''" "''LINUX''" "[''Windows'', ''linux'']" "[SStr ''Windows'', SStr ''Darwin'']" "VInt 0"]
  by (simp add: lower_examples)

text \<open>
  The claim as stated lets every truthy value that is not a string or a list of strings
  yield true. The list \<open>[True]\<close> is truthy and holds no string; on Linux it yields false,
  since \<open>str(True).lower()\<close> is not \<open>linux\<close>.
\<close>

theorem evaluate_optional_truthy_list_counterexample:
  "truthy (VList [SBool True]) \<and> \<not> evaluate_optional ''Linux'' (Some (VList [SBool True]))"
  by (simp add: lower_examples)

section \<open>Construction and lookup of component defaults\<close>

lemma map_of_absent: "name \<notin> fst ` set r \<Longrightarrow> map_of r name = None"
  by (simp add: map_of_eq_None_iff)

lemma map_of_present: "name \<in> fst ` set r \<Longrightarrow> \<exists>obj. map_of r name = Some obj"
  by (cases "map_of r name") (simp_all add: map_of_eq_None_iff)

text \<open>
  Claim C8. For a non-empty name: if the name is a key of the registry, the constructor
  raises \<open>KeyError\<close> and leaves the registry as it was; if it is not, the constructor
  registers the new object under the name, and a second construction under that name
  raises and leaves the first object in place.
\<close>

theorem ComponentDefaults_init_once:
  "name \<noteq> [] \<longrightarrow>
     (name \<in> fst ` set r \<longrightarrow>
        ComponentDefaults_init r name incs excs =
          (Inl (KeyError (''ComponentDefaults '' @ name @ '' already defined'')), r)) \<and>
     (name \<notin> fst ` set r \<longrightarrow>
        (\<exists>r'. ComponentDefaults_init r name incs excs = (Inr (Registered name), r') \<and>
           map_of r' name = Some \<lparr>cd_includes = incs, cd_excludes = excs\<rparr> \<and>
           ComponentDefaults_init r' name incs' excs' =
             (Inl (KeyError (''ComponentDefaults '' @ name @ '' already defined'')), r')))"
  by (auto simp: ComponentDefaults_init_def Let_def map_add_def map_of_absent split: option.splits)

theorem ComponentDefaults_init_once_witness:
  "ComponentDefaults_init builtin_registry ''dev'' [''**/*.h''] [] =
     (Inl (KeyError ''ComponentDefaults dev already defined''), builtin_registry) \<and>
   (\<exists>r'. ComponentDefaults_init builtin_registry ''test'' [''**/*_test''] [] =
           (Inr (Registered ''test''), r') \<and>
         map_of r' ''test'' = Some \<lparr>cd_includes = [''**/*_test''], cd_excludes = []\<rparr> \<and>
         ComponentDefaults_init r' ''test'' [] [] =
           (Inl (KeyError ''ComponentDefaults test already defined''), r'))"
proof -
  have dev: "''dev'' \<in> fst ` set builtin_registry" and test: "''test'' \<notin> fst ` set builtin_registry"
    by (simp_all add: builtin_registry_value)
  show ?thesis
    using ComponentDefaults_init_once [of "''dev''" builtin_registry "[''**/*.h'']" "[]"] dev
      ComponentDefaults_init_once [of "''test''" builtin_registry "[''**/*_test'']" "[]" "[]" "[]"]
      test
    by simp
qed

text \<open>
  Claim C9, as amended. For a non-empty name that is not a key of the registry, \<open>get\<close>
  registers a new object with empty lists under the name, after which a construction
  under that name raises. For a name that is a key, \<open>get\<close> returns the registered
  object and the registry as it was. For the empty name, never a key, \<open>get\<close> builds an
  object that it does not register, and a construction with the empty name succeeds.
\<close>

theorem ComponentDefaults_get_registers:
  "(name \<noteq> [] \<and> name \<notin> fst ` set r \<longrightarrow>
      ComponentDefaults_get r name = (Inr (Registered name), r @ [(name, empty_defaults)]) \<and>
      ComponentDefaults_init (snd (ComponentDefaults_get r name)) name incs excs =
        (Inl (KeyError (''ComponentDefaults '' @ name @ '' already defined'')),
         r @ [(name, empty_defaults)])) \<and>
   (name \<in> fst ` set r \<longrightarrow>
      ComponentDefaults_get r name = (Inr (Registered name), r) \<and>
      map_of r name = Some (deref r (Registered name))) \<and>
   ([] \<notin> fst ` set r \<longrightarrow>
      ComponentDefaults_get r [] = (Inr (Unregistered empty_defaults), r) \<and>
      ComponentDefaults_init (snd (ComponentDefaults_get r [])) [] incs excs =
        (Inr (Unregistered \<lparr>cd_includes = incs, cd_excludes = excs\<rparr>), r))"
proof -
  have fresh: "ComponentDefaults_get r name = (Inr (Registered name), r @ [(name, empty_defaults)]) \<and>
      ComponentDefaults_init (snd (ComponentDefaults_get r name)) name incs excs =
        (Inl (KeyError (''ComponentDefaults '' @ name @ '' already defined'')),
         r @ [(name, empty_defaults)])"
    if "name \<noteq> [] \<and> name \<notin> fst ` set r"
    using that
    by (simp add: ComponentDefaults_get_def ComponentDefaults_init_def map_of_absent
        empty_defaults_def)
  have known: "ComponentDefaults_get r name = (Inr (Registered name), r) \<and>
      map_of r name = Some (deref r (Registered name))"
    if "name \<in> fst ` set r"
    using map_of_present [OF that] by (auto simp: ComponentDefaults_get_def)
  have unnamed: "ComponentDefaults_get r [] = (Inr (Unregistered empty_defaults), r) \<and>
      ComponentDefaults_init (snd (ComponentDefaults_get r [])) [] incs excs =
        (Inr (Unregistered \<lparr>cd_includes = incs, cd_excludes = excs\<rparr>), r)"
    if "[] \<notin> fst ` set r"
    using that
    by (simp add: ComponentDefaults_get_def ComponentDefaults_init_def map_of_absent
        empty_defaults_def)
  show ?thesis
    using fresh known unnamed by blast
qed

theorem ComponentDefaults_get_registers_witness:
  "ComponentDefaults_get builtin_registry ''test'' =
     (Inr (Registered ''test''), builtin_registry @ [(''test'', empty_defaults)]) \<and>
   ComponentDefaults_init (snd (ComponentDefaults_get builtin_registry ''test'')) ''test'' [] [] =
     (Inl (KeyError (''ComponentDefaults '' @ ''test'' @ '' already defined'')),
      builtin_registry @ [(''test'', empty_defaults)]) \<and>
   ComponentDefaults_get builtin_registry ''lib'' = (Inr (Registered ''lib''), builtin_registry)"
proof -
  have lib: "''lib'' \<in> fst ` set builtin_registry"
    and test: "''test'' \<noteq> [] \<and> ''test'' \<notin> fst ` set builtin_registry"
    by (simp_all add: builtin_registry_value)
  show ?thesis
    using ComponentDefaults_get_registers [of "''test''" builtin_registry "[]" "[]"] test
      ComponentDefaults_get_registers [of "''lib''" builtin_registry] lib
    by blast
qed

text \<open>
  The claim as stated speaks of every name absent from the registry. The empty name is
  absent; \<open>get\<close> of it leaves the registry as it was, and the construction that follows
  does not raise.
\<close>

theorem ComponentDefaults_get_empty_name_counterexample:
  "[] \<notin> fst ` set builtin_registry \<and>
   snd (ComponentDefaults_get builtin_registry []) = builtin_registry \<and>
   fst (ComponentDefaults_init (snd (ComponentDefaults_get builtin_registry [])) [] [] []) =
     Inr (Unregistered empty_defaults)"
  by (simp add: builtin_registry_value ComponentDefaults_get_def ComponentDefaults_init_def
      empty_defaults_def)

section \<open>The members of an archive\<close>

lemma add_entries_eq:
  "add_entries relpath es arc = arc @ map (entry_member relpath) es"
  by (induction es arbitrary: arc) (auto simp: entry_member_def)

lemma add_relpaths_Cons:
  "add_relpaths ops fs ap (relpath # rest) arc =
     (case relpath_members ops fs ap relpath of
        Inl e \<Rightarrow> Inl e
      | Inr ms \<Rightarrow> add_relpaths ops fs ap rest (arc @ ms))"
  by (simp add: relpath_members_def add_entries_eq entry_member_def split: sum.splits)

lemma add_relpaths_collect:
  "add_relpaths ops fs ap rels arc =
     (case collect (relpath_members ops fs ap) rels of
        Inl e \<Rightarrow> Inl e
      | Inr ms \<Rightarrow> Inr (arc @ ms))"
proof (induction rels arbitrary: arc)
  case Nil
  show ?case by simp
next
  case (Cons relpath rest)
  show ?case
    unfolding add_relpaths_Cons
    by (simp add: Cons.IH split: sum.splits)
qed

lemma add_artifacts_Cons:
  "add_artifacts ops fs (ap # rest) arc =
     (case artifact_members ops fs ap of
        Inl e \<Rightarrow> Inl e
      | Inr seg \<Rightarrow> add_artifacts ops fs rest (arc @ seg))"
  by (simp add: artifact_members_def add_relpaths_collect manifest_member_def Let_def
      split: sum.splits)

lemma add_artifacts_collect:
  "add_artifacts ops fs arts arc =
     (case collect (artifact_members ops fs) arts of
        Inl e \<Rightarrow> Inl e
      | Inr ms \<Rightarrow> Inr (arc @ ms))"
proof (induction arts arbitrary: arc)
  case Nil
  show ?case by simp
next
  case (Cons ap rest)
  show ?case
    unfolding add_artifacts_Cons
    by (simp add: Cons.IH split: sum.splits)
qed

lemma collect_Inr_iff:
  "collect f xs = Inr ys \<longleftrightarrow>
     (\<exists>yss. list_all2 (\<lambda>x y. f x = Inr y) xs yss \<and> ys = concat yss)"
proof (induction xs arbitrary: ys)
  case Nil
  show ?case by auto
next
  case (Cons x xs)
  show ?case
  proof
    assume "collect f (x # xs) = Inr ys"
    then obtain y zs where y: "f x = Inr y" and zs: "collect f xs = Inr zs" and ys: "ys = y @ zs"
      by (auto split: sum.splits)
    from zs obtain yss where "list_all2 (\<lambda>x y. f x = Inr y) xs yss" "zs = concat yss"
      using Cons.IH by blast
    then have "list_all2 (\<lambda>x y. f x = Inr y) (x # xs) (y # yss) \<and> ys = concat (y # yss)"
      using y ys by simp
    then show "\<exists>yss. list_all2 (\<lambda>x y. f x = Inr y) (x # xs) yss \<and> ys = concat yss"
      by blast
  next
    assume "\<exists>yss. list_all2 (\<lambda>x y. f x = Inr y) (x # xs) yss \<and> ys = concat yss"
    then obtain yss where a: "list_all2 (\<lambda>x y. f x = Inr y) (x # xs) yss" and ys: "ys = concat yss"
      by blast
    from a obtain y yss' where yss: "yss = y # yss'" and y: "f x = Inr y"
      and r: "list_all2 (\<lambda>x y. f x = Inr y) xs yss'"
      by (auto simp: list_all2_Cons1)
    from r have "collect f xs = Inr (concat yss')"
      using Cons.IH by blast
    then show "collect f (x # xs) = Inr ys"
      using y ys yss by simp
  qed
qed

lemma payload_name_not_manifest:
  "relpath @ CHR ''/'' # subpath \<noteq> ''artifact_manifest.txt''"
proof
  assume eq: "relpath @ CHR ''/'' # subpath = ''artifact_manifest.txt''"
  have "CHR ''/'' \<in> set (relpath @ CHR ''/'' # subpath)"
    by simp
  then have "CHR ''/'' \<in> set ''artifact_manifest.txt''"
    unfolding eq .
  then show False
    by simp
qed

lemma relpath_members_names:
  "relpath_members ops fs ap relpath = Inr ms \<Longrightarrow> m \<in> set ms \<Longrightarrow>
     arcname m \<noteq> ''artifact_manifest.txt''"
  by (auto simp: relpath_members_def payload_name_not_manifest split: if_splits sum.splits)

lemma collect_relpath_members_names:
  "collect (relpath_members ops fs ap) rels = Inr ms \<Longrightarrow>
     filter (\<lambda>m. arcname m = ''artifact_manifest.txt'') ms = []"
proof (induction rels arbitrary: ms)
  case Nil
  then show ?case by simp
next
  case (Cons relpath rest)
  from Cons.prems obtain y zs where y: "relpath_members ops fs ap relpath = Inr y"
    and zs: "collect (relpath_members ops fs ap) rest = Inr zs" and ms: "ms = y @ zs"
    by (auto split: sum.splits)
  have "filter (\<lambda>m. arcname m = ''artifact_manifest.txt'') y = []"
    using relpath_members_names [OF y] by (simp add: filter_empty_conv)
  then show ?case
    using Cons.IH [OF zs] ms by simp
qed

lemma artifact_members_manifests:
  "artifact_members ops fs ap = Inr seg \<Longrightarrow>
     filter (\<lambda>m. arcname m = ''artifact_manifest.txt'') seg = [manifest_member ap]"
  by (auto simp: artifact_members_def manifest_member_def collect_relpath_members_names
      split: sum.splits)

lemma collect_artifact_members_manifests:
  "collect (artifact_members ops fs) arts = Inr ms \<Longrightarrow>
     filter (\<lambda>m. arcname m = ''artifact_manifest.txt'') ms = map manifest_member arts"
proof (induction arts arbitrary: ms)
  case Nil
  then show ?case by simp
next
  case (Cons ap rest)
  from Cons.prems obtain y zs where y: "artifact_members ops fs ap = Inr y"
    and zs: "collect (artifact_members ops fs) rest = Inr zs" and ms: "ms = y @ zs"
    by (auto split: sum.splits)
  show ?case
    using Cons.IH [OF zs] artifact_members_manifests [OF y] ms by simp
qed

lemma do_artifact_archive_collect:
  "do_artifact_archive ops args fs =
     (case archive_open ops args fs of
        Inl e \<Rightarrow> Inl e
      | Inr fs3 \<Rightarrow> collect (artifact_members ops fs3) (arg_artifact args))"
  by (simp add: do_artifact_archive_def add_artifacts_collect split: sum.splits)



lemma archive_two_value:
  "do_artifact_archive journal_ops archive_two (example_fs lib_children changes) =
     Inr [manifest_member lib_artifact, liba_member, libb_member,
          manifest_member run_artifact, tool_member]"
  by code_simp


text \<open>
  Claim C3. A finished archive is the concatenation of one segment per artifact
  directory, in the order given; the segment of an artifact is what the loop adds for
  it alone, and it starts with the artifact's manifest member, followed by payload
  members none of which bears the manifest's name. So when at least one artifact
  directory is given, the first member of the archive is the manifest of the first.
\<close>

theorem archive_manifest_first:
  assumes "do_artifact_archive ops args fs = Inr arc"
  shows "\<exists>fs3 segs.
           archive_open ops args fs = Inr fs3 \<and>
           arc = concat segs \<and>
           list_all2 (\<lambda>artifact_path seg. add_artifacts ops fs3 [artifact_path] [] = Inr seg \<and>
              (\<exists>payload. seg = manifest_member artifact_path # payload \<and>
                 filter (\<lambda>m. arcname m = ''artifact_manifest.txt'') payload = []))
             (arg_artifact args) segs \<and>
           (arg_artifact args \<noteq> [] \<longrightarrow>
              (\<exists>rest. arc = manifest_member (hd (arg_artifact args)) # rest))"
proof -
  from assms obtain fs3 where op: "archive_open ops args fs = Inr fs3"
    and col: "collect (artifact_members ops fs3) (arg_artifact args) = Inr arc"
    by (auto simp: do_artifact_archive_collect split: sum.splits)
  from col obtain segs where segs: "list_all2 (\<lambda>a seg. artifact_members ops fs3 a = Inr seg)
      (arg_artifact args) segs" and arc: "arc = concat segs"
    unfolding collect_Inr_iff by blast
  have one: "add_artifacts ops fs3 [a] [] = artifact_members ops fs3 a" for a
    by (simp add: add_artifacts_collect split: sum.splits)
  have shape: "\<exists>payload. seg = manifest_member a # payload \<and>
      filter (\<lambda>m. arcname m = ''artifact_manifest.txt'') payload = []"
    if "artifact_members ops fs3 a = Inr seg" for a seg
    using that
    by (auto simp: artifact_members_def collect_relpath_members_names split: sum.splits)
  have all: "list_all2 (\<lambda>artifact_path seg. add_artifacts ops fs3 [artifact_path] [] = Inr seg \<and>
              (\<exists>payload. seg = manifest_member artifact_path # payload \<and>
                 filter (\<lambda>m. arcname m = ''artifact_manifest.txt'') payload = []))
             (arg_artifact args) segs"
  proof (rule list_all2_mono [OF segs])
    fix a seg
    assume s: "artifact_members ops fs3 a = Inr seg"
    show "add_artifacts ops fs3 [a] [] = Inr seg \<and>
              (\<exists>payload. seg = manifest_member a # payload \<and>
                 filter (\<lambda>m. arcname m = ''artifact_manifest.txt'') payload = [])"
      unfolding one using s shape [OF s] by blast
  qed
  have first: "\<exists>rest. arc = manifest_member (hd (arg_artifact args)) # rest"
    if "arg_artifact args \<noteq> []"
  proof -
    from that obtain a as where as: "arg_artifact args = a # as"
      by (cases "arg_artifact args") auto
    with segs obtain seg ss where ss: "segs = seg # ss" and seg: "artifact_members ops fs3 a = Inr seg"
      by (auto simp: list_all2_Cons1)
    from shape [OF seg] obtain payload where "seg = manifest_member a # payload"
      by blast
    then show ?thesis
      using arc ss as by simp
  qed
  show ?thesis
    using op arc all first by blast
qed

theorem archive_manifest_first_witness:
  "\<exists>rest. do_artifact_archive journal_ops archive_two (example_fs lib_children []) =
      Inr (manifest_member lib_artifact # rest)"
proof -
  have ne: "arg_artifact archive_two \<noteq> []" and h: "hd (arg_artifact archive_two) = lib_artifact"
    by (simp_all add: archive_two_def)
  from archive_manifest_first [OF archive_two_value [of "[]"]] ne h
  obtain rest where "[manifest_member lib_artifact, liba_member, libb_member,
          manifest_member run_artifact, tool_member] = manifest_member lib_artifact # rest"
    by auto
  then show ?thesis
    unfolding archive_two_value by blast
qed

text \<open>
  Claim C10. In a finished archive the members named \<open>artifact_manifest.txt\<close> are the
  manifests of the artifact directories, one each and in order, all under that one
  name; with more than one artifact directory the names of the archive's members are
  not distinct.
\<close>

theorem archive_manifest_names:
  assumes "do_artifact_archive ops args fs = Inr arc"
  shows "filter (\<lambda>m. arcname m = ''artifact_manifest.txt'') arc =
           map manifest_member (arg_artifact args) \<and>
         (1 < length (arg_artifact args) \<longrightarrow> \<not> distinct (map arcname arc))"
proof -
  from assms obtain fs3 where
    col: "collect (artifact_members ops fs3) (arg_artifact args) = Inr arc"
    by (auto simp: do_artifact_archive_collect split: sum.splits)
  have f: "filter (\<lambda>m. arcname m = ''artifact_manifest.txt'') arc =
           map manifest_member (arg_artifact args)"
    by (rule collect_artifact_members_manifests [OF col])
  have "\<not> distinct (map arcname arc)" if many: "1 < length (arg_artifact args)"
  proof
    assume "distinct (map arcname arc)"
    then have "distinct (map arcname (filter (\<lambda>m. arcname m = ''artifact_manifest.txt'') arc))"
      by (rule distinct_map_filter)
    then have d: "distinct (map (\<lambda>a. ''artifact_manifest.txt'') (arg_artifact args))"
      unfolding f by (simp add: manifest_member_def comp_def)
    from many obtain a b rest where "arg_artifact args = a # b # rest"
      by (cases "arg_artifact args"; cases "tl (arg_artifact args)") auto
    with d show False
      by simp
  qed
  with f show ?thesis
    by blast
qed

theorem archive_manifest_names_witness:
  "\<exists>arc. do_artifact_archive journal_ops archive_two (example_fs lib_children []) = Inr arc \<and>
     filter (\<lambda>m. arcname m = ''artifact_manifest.txt'') arc =
       [manifest_member lib_artifact, manifest_member run_artifact] \<and>
     \<not> distinct (map arcname arc)"
proof -
  let ?arc = "[manifest_member lib_artifact, liba_member, libb_member,
      manifest_member run_artifact, tool_member]"
  have two: "map manifest_member (arg_artifact archive_two) =
      [manifest_member lib_artifact, manifest_member run_artifact]"
    and many: "1 < length (arg_artifact archive_two)"
    by (simp_all add: archive_two_def)
  note t = archive_manifest_names [OF archive_two_value [of "[]"]]
  from t have f: "filter (\<lambda>m. arcname m = ''artifact_manifest.txt'') ?arc =
      [manifest_member lib_artifact, manifest_member run_artifact]"
    unfolding two by (rule conjunct1)
  from t many have d: "\<not> distinct (map arcname ?arc)"
    by blast
  show ?thesis
    using archive_two_value [of "[]"] f d by (intro exI [of _ ?arc] conjI)
qed

text \<open>
  Claim C7. The loop over the lines of a manifest passes over an empty line and over a
  line whose subdirectory does not exist, with the archive unchanged and without an
  exception; for any other line it appends one member per entry the matcher
  enumerates under the subdirectory, named by the line, a slash and the entry's
  relative path, and goes on. The loop succeeds exactly when every line does, and then
  the archive has grown by the members of the lines in order; the segment of an
  artifact is its manifest member followed by them.
\<close>

theorem archive_manifest_lines:
  "add_relpaths ops fs ap ([] # rest) arc = add_relpaths ops fs ap rest arc \<and>
   (\<not> fs_exists ops fs (Join ap relpath) \<longrightarrow>
      add_relpaths ops fs ap (relpath # rest) arc = add_relpaths ops fs ap rest arc) \<and>
   (relpath \<noteq> [] \<and> fs_exists ops fs (Join ap relpath) \<and>
    pm_add_basedir ops fs (PatternMatcher [] [] []) (Join ap relpath) = Inr pm \<longrightarrow>
      add_relpaths ops fs ap (relpath # rest) arc =
        add_relpaths ops fs ap rest
          (arc @ map (\<lambda>(subpath, dir_entry).
                   \<lparr>member_source = Path (entry_path dir_entry),
                    arcname = relpath @ ''/'' @ subpath\<rparr>) (pm_all pm))) \<and>
   ((add_relpaths ops fs ap rels arc = Inr arc') =
      (\<exists>ps. list_all2 (\<lambda>relpath p. relpath_members ops fs ap relpath = Inr p) rels ps \<and>
            arc' = arc @ concat ps)) \<and>
   ((add_artifacts ops fs [ap] [] = Inr seg) =
      (\<exists>text ps. fs_read_text ops fs (Join ap ''artifact_manifest.txt'') = Inr text \<and>
            list_all2 (\<lambda>relpath p. relpath_members ops fs ap relpath = Inr p) (splitlines text) ps \<and>
            seg = manifest_member ap # concat ps))"
proof -
  have blank: "add_relpaths ops fs ap ([] # rest) arc = add_relpaths ops fs ap rest arc"
    by simp
  have missing: "add_relpaths ops fs ap (relpath # rest) arc = add_relpaths ops fs ap rest arc"
    if "\<not> fs_exists ops fs (Join ap relpath)"
    using that by simp
  have present: "add_relpaths ops fs ap (relpath # rest) arc =
        add_relpaths ops fs ap rest
          (arc @ map (\<lambda>(subpath, dir_entry).
                   \<lparr>member_source = Path (entry_path dir_entry),
                    arcname = relpath @ ''/'' @ subpath\<rparr>) (pm_all pm))"
    if "relpath \<noteq> []" "fs_exists ops fs (Join ap relpath)"
      "pm_add_basedir ops fs (PatternMatcher [] [] []) (Join ap relpath) = Inr pm"
    using that by (simp add: add_entries_eq entry_member_def)
  have loop: "(add_relpaths ops fs ap rels arc = Inr arc') =
      (\<exists>ps. list_all2 (\<lambda>relpath p. relpath_members ops fs ap relpath = Inr p) rels ps \<and>
            arc' = arc @ concat ps)"
  proof -
    have "(add_relpaths ops fs ap rels arc = Inr arc') =
        (\<exists>ms. collect (relpath_members ops fs ap) rels = Inr ms \<and> arc' = arc @ ms)"
      unfolding add_relpaths_collect by (auto split: sum.splits)
    then show ?thesis
      unfolding collect_Inr_iff by blast
  qed
  have one: "(add_artifacts ops fs [ap] [] = Inr seg) =
      (\<exists>text ps. fs_read_text ops fs (Join ap ''artifact_manifest.txt'') = Inr text \<and>
            list_all2 (\<lambda>relpath p. relpath_members ops fs ap relpath = Inr p) (splitlines text) ps \<and>
            seg = manifest_member ap # concat ps)"
  proof -
    have "(add_artifacts ops fs [ap] [] = Inr seg) = (artifact_members ops fs ap = Inr seg)"
      by (simp add: add_artifacts_collect split: sum.splits)
    also have "(artifact_members ops fs ap = Inr seg) =
        (\<exists>text payload. fs_read_text ops fs (Join ap ''artifact_manifest.txt'') = Inr text \<and>
           collect (relpath_members ops fs ap) (splitlines text) = Inr payload \<and>
           seg = manifest_member ap # payload)"
      unfolding artifact_members_def by (auto split: sum.splits)
    finally show ?thesis
      unfolding collect_Inr_iff by blast
  qed
  show ?thesis
    using blank missing present loop one by blast
qed

lemma lib_lines:
  "splitlines (manifest_text [''stage/lib'', [], ''stage/gone'']) = [''stage/lib'', [], ''stage/gone'']"
  by code_simp

lemma lib_line_members:
  "relpath_members journal_ops (example_fs lib_children []) lib_artifact ''stage/lib'' =
     Inr [liba_member, libb_member]"
  "relpath_members journal_ops (example_fs lib_children []) lib_artifact [] = Inr []"
  "relpath_members journal_ops (example_fs lib_children []) lib_artifact ''stage/gone'' = Inr []"
  by code_simp+

lemma lib_line_facts:
  "fs_exists journal_ops (example_fs lib_children []) (Join lib_artifact ''stage/lib'')"
  "pm_add_basedir journal_ops (example_fs lib_children []) (PatternMatcher [] [] [])
     (Join lib_artifact ''stage/lib'') = Inr lib_matcher"
  "\<not> fs_exists journal_ops (example_fs lib_children []) (Join lib_artifact ''stage/gone'')"
  "map (\<lambda>(subpath, dir_entry).
      \<lparr>member_source = Path (entry_path dir_entry), arcname = ''stage/lib'' @ ''/'' @ subpath\<rparr>)
      (pm_all lib_matcher) = [liba_member, libb_member]"
  by code_simp+

theorem archive_manifest_lines_witness:
  "add_relpaths journal_ops (example_fs lib_children []) lib_artifact
     [''stage/lib'', [], ''stage/gone''] [manifest_member lib_artifact] =
     Inr [manifest_member lib_artifact, liba_member, libb_member] \<and>
   add_artifacts journal_ops (example_fs lib_children []) [lib_artifact] [] =
     Inr [manifest_member lib_artifact, liba_member, libb_member]"
proof -
  let ?fs = "example_fs lib_children []"
  let ?arc = "[manifest_member lib_artifact, liba_member, libb_member]"
  have ne: "''stage/lib'' \<noteq> []"
    by simp
  have "add_relpaths journal_ops ?fs lib_artifact [''stage/lib'', [], ''stage/gone'']
      [manifest_member lib_artifact] =
      add_relpaths journal_ops ?fs lib_artifact [[], ''stage/gone'']
        ([manifest_member lib_artifact] @ [liba_member, libb_member])"
    using archive_manifest_lines [of journal_ops ?fs lib_artifact "[[], ''stage/gone'']"
        "[manifest_member lib_artifact]" "''stage/lib''" lib_matcher]
      ne lib_line_facts(1,2)
    unfolding lib_line_facts(4) by blast
  also have "\<dots> = add_relpaths journal_ops ?fs lib_artifact [''stage/gone''] ?arc"
    using archive_manifest_lines [of journal_ops ?fs lib_artifact "[''stage/gone'']"
        "[manifest_member lib_artifact] @ [liba_member, libb_member]"]
    by simp
  also have "\<dots> = add_relpaths journal_ops ?fs lib_artifact [] ?arc"
    using archive_manifest_lines [of journal_ops ?fs lib_artifact "[]" ?arc "''stage/gone''"]
      lib_line_facts(3)
    by blast
  finally have lines: "add_relpaths journal_ops ?fs lib_artifact
      [''stage/lib'', [], ''stage/gone''] [manifest_member lib_artifact] = Inr ?arc"
    by simp
  have manifest: "fs_read_text journal_ops ?fs (Join lib_artifact ''artifact_manifest.txt'') =
      Inr (manifest_text [''stage/lib'', [], ''stage/gone''])"
    by code_simp
  have ps: "list_all2 (\<lambda>relpath p. relpath_members journal_ops ?fs lib_artifact relpath = Inr p)
      (splitlines (manifest_text [''stage/lib'', [], ''stage/gone'']))
      [[liba_member, libb_member], [], []]"
    by (simp add: lib_lines lib_line_members)
  have "\<exists>text ps. fs_read_text journal_ops ?fs (Join lib_artifact ''artifact_manifest.txt'') =
        Inr text \<and>
      list_all2 (\<lambda>relpath p. relpath_members journal_ops ?fs lib_artifact relpath = Inr p)
        (splitlines text) ps \<and>
      ?arc = manifest_member lib_artifact # concat ps"
    using manifest ps by (intro exI [of _ "manifest_text [''stage/lib'', [], ''stage/gone'']"]
        exI [of _ "[[liba_member, libb_member], [], []]"]) simp
  then have whole: "add_artifacts journal_ops ?fs [lib_artifact] [] = Inr ?arc"
    using archive_manifest_lines [of journal_ops ?fs lib_artifact _ _ _ _ _ _ ?arc]
    by blast
  show ?thesis
    using lines whole by blast
qed




section \<open>The manifest of an artifact directory\<close>

lemma artifact_loop_append:
  "artifact_loop ops sys r args fs acc (xs @ ys) =
     (case artifact_loop ops sys r args fs acc xs of
        Inl e \<Rightarrow> Inl e
      | Inr (fs1, acc1) \<Rightarrow> artifact_loop ops sys r args fs1 acc1 ys)"
proof (induction xs arbitrary: fs acc)
  case Nil
  show ?case by simp
next
  case (Cons x xs)
  obtain k rec where x: "x = (k, rec)"
    by (cases x)
  show ?case
    unfolding x by (simp add: Cons.IH Let_def split: sum.splits)
qed

lemma artifact_loop_skip:
  "evaluate_optional sys (br_optional rec) \<Longrightarrow>
   \<not> fs_exists ops fs (Join (arg_root_dir args) relpath) \<Longrightarrow>
   artifact_loop ops sys r args fs acc ((relpath, rec) # rest) =
     artifact_loop ops sys r args fs acc rest"
  by simp

lemma artifact_loop_acc:
  "artifact_loop ops sys r args fs acc entries = Inr (fs', acc') \<Longrightarrow>
     \<exists>new. acc' = acc @ new \<and> subseq new (map fst entries) \<and>
       (\<forall>(k, rec) \<in> set entries. \<not> evaluate_optional sys (br_optional rec) \<longrightarrow> k \<in> set new)"
proof (induction entries arbitrary: fs acc)
  case Nil
  then show ?case by simp
next
  case (Cons x xs)
  obtain k rec where x: "x = (k, rec)"
    by (cases x)
  show ?case
  proof (cases "evaluate_optional sys (br_optional rec) \<and>
      \<not> fs_exists ops fs (Join (arg_root_dir args) k)")
    case True
    with Cons.prems have "artifact_loop ops sys r args fs acc xs = Inr (fs', acc')"
      unfolding x by simp
    from Cons.IH [OF this] obtain new where new: "acc' = acc @ new" "subseq new (map fst xs)"
      "\<forall>(k, rec) \<in> set xs. \<not> evaluate_optional sys (br_optional rec) \<longrightarrow> k \<in> set new"
      by blast
    have "subseq new (map fst (x # xs))"
      using new(2) by (simp add: list_emb_Cons)
    then show ?thesis
      using new True unfolding x by auto
  next
    case False
    with Cons.prems obtain fs1 where
      "artifact_loop ops sys r args fs1 (acc @ [k]) xs = Inr (fs', acc')"
      unfolding x by (auto simp: Let_def split: sum.splits)
    from Cons.IH [OF this] obtain new where new: "acc' = (acc @ [k]) @ new" "subseq new (map fst xs)"
      "\<forall>(k, rec) \<in> set xs. \<not> evaluate_optional sys (br_optional rec) \<longrightarrow> k \<in> set new"
      by blast
    have "acc' = acc @ (k # new)" "subseq (k # new) (map fst (x # xs))"
      using new(1,2) unfolding x by simp_all
    moreover have "\<forall>(k', rec') \<in> set (x # xs).
        \<not> evaluate_optional sys (br_optional rec') \<longrightarrow> k' \<in> set (k # new)"
      using new(3) unfolding x by auto
    ultimately show ?thesis
      by blast
  qed
qed

lemma subseq_subset: "subseq xs ys \<Longrightarrow> set xs \<subseteq> set ys"
  by (auto elim: list_emb_set)

lemma join_lines:
  "rels \<noteq> [] \<Longrightarrow> join sep rels @ sep = concat (map (\<lambda>p. p @ sep) rels)"
  by (induction sep rels rule: join.induct) simp_all

lemma linebreak_LF: "linebreak (CHR 0x0A)"
  by (simp add: linebreak_def)

lemma linebreak_CR: "linebreak (CHR 0x0D)"
  by (simp add: linebreak_def)

lemma splitlines_from_char:
  "\<not> linebreak c \<Longrightarrow> splitlines_from cur (c # cs) = splitlines_from (cur @ [c]) cs"
  using linebreak_CR by (cases cs) auto

lemma splitlines_from_LF:
  "splitlines_from cur (CHR 0x0A # cs) = cur # splitlines_from [] cs"
  by (cases cs) (simp_all add: linebreak_LF)

lemma splitlines_from_line:
  "\<forall>c \<in> set p. \<not> linebreak c \<Longrightarrow>
     splitlines_from cur (p @ CHR 0x0A # rest) = (cur @ p) # splitlines_from [] rest"
proof (induction p arbitrary: cur)
  case Nil
  show ?case by (simp add: splitlines_from_LF)
next
  case (Cons c p)
  then have "splitlines_from cur ((c # p) @ CHR 0x0A # rest) =
      splitlines_from (cur @ [c]) (p @ CHR 0x0A # rest)"
    by (simp add: splitlines_from_char)
  also have "\<dots> = ((cur @ [c]) @ p) # splitlines_from [] rest"
    using Cons by simp
  finally show ?case by simp
qed

lemma splitlines_lines:
  "\<forall>p \<in> set rels. \<forall>c \<in> set p. \<not> linebreak c \<Longrightarrow>
     splitlines (concat (map (\<lambda>p. p @ [CHR 0x0A]) rels)) = rels"
  unfolding splitlines_def
proof (induction rels)
  case Nil
  show ?case by simp
next
  case (Cons p rels)
  have "splitlines_from [] (concat (map (\<lambda>p. p @ [CHR 0x0A]) (p # rels))) =
      splitlines_from [] (p @ CHR 0x0A # concat (map (\<lambda>p. p @ [CHR 0x0A]) rels))"
    by simp
  also have "\<dots> = p # splitlines_from [] (concat (map (\<lambda>p. p @ [CHR 0x0A]) rels))"
    using Cons.prems by (subst splitlines_from_line) simp_all
  finally show ?case
    using Cons by simp
qed

lemma manifest_text_roundtrip:
  "rels \<noteq> [] \<Longrightarrow> \<forall>p \<in> set rels. \<forall>c \<in> set p. \<not> linebreak c \<Longrightarrow>
     splitlines (manifest_text rels) = rels"
  by (simp add: manifest_text_def join_lines splitlines_lines)

lemma manifest_text_empty:
  "manifest_text [] = [CHR 0x0A]" "filter (\<lambda>l. l \<noteq> []) (splitlines (manifest_text [])) = []"
  by (simp_all add: manifest_text_def splitlines_def linebreak_LF)

lemma example_record:
  "component_record_of (arg_descriptor (example_args ''lib'')) (arg_component (example_args ''lib''))
     = [core_entry, extras_entry, math_entry]"
  by code_simp

lemma example_output_dir:
  "artifact_output_dir journal_ops (arg_output_dir (example_args c)) build_fs = Inr build_fs2"
  by (simp add: artifact_output_dir_def journal_ops_def example_args_def build_fs_def
      build_fs2_def output_path_def journal_exists_def journal_create_def journal_clear_def
      record_change_def)

lemma example_loop_core:
  "artifact_loop journal_ops ''Linux'' builtin_registry (example_args ''lib'') build_fs2 []
     [core_entry] = Inr (build_fs1, [''core/stage''])"
  by code_simp

lemma example_loop_math:
  "artifact_loop journal_ops ''Linux'' builtin_registry (example_args ''lib'') build_fs1
     [''core/stage''] [math_entry] = Inr (build_fs3, [''core/stage'', ''math/stage''])"
  by code_simp

lemma example_no_linebreaks: "no_linebreaks [''core/stage'', ''math/stage'']"
  by code_simp

lemma example_absent:
  "case components (arg_descriptor (example_args ''doc'')) of
       None \<Rightarrow> True
     | Some cs \<Rightarrow> map_of cs (arg_component (example_args ''doc'')) = None"
  by code_simp

lemma artifact_loop_items:
  "artifact_loop ops sys r args fs acc cr =
     (case run_items ops sys r args fs cr of
        Inl e \<Rightarrow> Inl e
      | Inr ss \<Rightarrow> Inr (last (fs # ss), acc @ contributing ops sys args cr (fs # ss)))"
proof (induction cr arbitrary: fs acc)
  case Nil
  show ?case by simp
next
  case (Cons item rest)
  obtain k rec where item: "item = (k, rec)"
    by (cases item)
  show ?case
  proof (cases "contributes ops sys args fs (k, rec)")
    case False
    then have skip: "evaluate_optional sys (br_optional rec) \<and>
        \<not> fs_exists ops fs (Join (arg_root_dir args) k)"
      by (simp add: contributes_def)
    have "artifact_item ops sys r args fs item = Inr fs"
      using False by (simp add: artifact_item_def item)
    then show ?thesis
      using skip False by (simp add: item Cons.IH split: sum.splits)
  next
    case True
    then have go: "\<not> (evaluate_optional sys (br_optional rec) \<and>
        \<not> fs_exists ops fs (Join (arg_root_dir args) k))"
      by (simp add: contributes_def)
    have m: "PatternMatcher
        (dup_list_or_str (br_include rec) @
          (if (case br_default_patterns rec of None \<Rightarrow> True | Some b \<Rightarrow> b)
           then cd_includes (ALL_get_or_default r (arg_component args)) else []))
        (dup_list_or_str (br_exclude rec) @
          (if (case br_default_patterns rec of None \<Rightarrow> True | Some b \<Rightarrow> b)
           then cd_excludes (ALL_get_or_default r (arg_component args)) else []))
        (dup_list_or_str (br_force_include rec)) = artifact_matcher r (arg_component args) rec"
      by (auto simp: artifact_matcher_def empty_defaults_def Let_def split: option.splits)
    have loop: "artifact_loop ops sys r args fs acc (item # rest) =
        (case artifact_item ops sys r args fs item of
           Inl e \<Rightarrow> Inl e
         | Inr fs' \<Rightarrow> artifact_loop ops sys r args fs' (acc @ [k]) rest)"
      using go True unfolding item
      by (auto simp: artifact_item_def Let_def m split: sum.splits)
    show ?thesis
      unfolding loop using True
      by (simp add: item Cons.IH split: sum.splits)
  qed
qed

lemma run_items_length:
  "run_items ops sys r args fs cr = Inr ss \<Longrightarrow> length ss = length cr"
  by (induction cr arbitrary: fs ss) (auto split: sum.splits)

lemma contributing_subseq:
  "subseq (contributing ops sys args cr ss) (map fst cr)"
  by (induction cr ss rule: contributing.induct) (auto simp: list_emb_Cons)

lemma join_not_self: "Join p name \<noteq> p"
  by (induction p) auto

lemma dict_set_key_iff:
  "(q \<in> fst ` set (dict_set k v kvs)) = (q = k \<or> q \<in> fst ` set kvs)"
proof (induction kvs)
  case Nil
  show ?case by simp
next
  case (Cons kv kvs)
  obtain k' v' where kv: "kv = (k', v')"
    by (cases kv)
  show ?case
  proof (cases "k = k'")
    case True
    then show ?thesis
      unfolding kv by auto
  next
    case False
    then have "(q \<in> fst ` set (dict_set k v (kv # kvs))) =
        (q = k' \<or> q \<in> fst ` set (dict_set k v kvs))"
      unfolding kv by simp
    then show ?thesis
      unfolding Cons.IH kv by auto
  qed
qed

lemma journal_rmtree_gone:
  "fs_rmtree journal_ops s p = Inr s' \<Longrightarrow> \<not> fs_exists journal_ops s' p"
  by (auto simp: journal_ops_def journal_exists_def journal_remove_def journal_clear_def
      record_change_def)

lemma journal_mkdir_fresh:
  "\<not> fs_exists journal_ops s p \<Longrightarrow> fs_mkdir journal_ops s p = Inr s' \<Longrightarrow>
     \<not> fs_exists journal_ops s' (Join p name)"
  by (auto simp: journal_ops_def journal_exists_def journal_create_def journal_clear_def
      record_change_def join_not_self)

lemma journal_write_frame:
  assumes "fs_write_text journal_ops s p t = Inr s'" and "q \<noteq> p"
  shows "fs_exists journal_ops s' q = fs_exists journal_ops s q"
proof -
  from assms(1) have "s' = record_change (WriteText p t) (s\<lparr>texts := dict_set p t (texts s)\<rparr>)"
    by (simp add: journal_ops_def)
  then have "texts s' = dict_set p t (texts s)" and "trees s' = trees s"
    by (simp_all add: record_change_def)
  then show ?thesis
    using assms(2) by (simp add: journal_ops_def journal_exists_def dict_set_key_iff)
qed

lemma example_lib_run:
  "(case (if fs_exists journal_ops build_fs (arg_output_dir (example_args ''lib''))
          then fs_rmtree journal_ops build_fs (arg_output_dir (example_args ''lib''))
          else Inr build_fs) of
      Inl e \<Rightarrow> Inl e
    | Inr fs1 \<Rightarrow>
        (case fs_mkdir journal_ops fs1 (arg_output_dir (example_args ''lib'')) of
           Inl e \<Rightarrow> Inl e
         | Inr fs2 \<Rightarrow>
             (case run_items journal_ops ''Linux'' builtin_registry (example_args ''lib'') fs2
                     [core_entry, extras_entry, math_entry] of
                Inl e \<Rightarrow> Inl e
              | Inr ss \<Rightarrow>
                  fs_write_text journal_ops (last (fs2 # ss))
                    (Join (arg_output_dir (example_args ''lib'')) ''artifact_manifest.txt'')
                    (manifest_text (contributing journal_ops ''Linux'' (example_args ''lib'')
                       [core_entry, extras_entry, math_entry] (fs2 # ss)))))) = Inr lib_final"
  by code_simp

lemma example_doc_run:
  "(case (if fs_exists journal_ops stale_fs (arg_output_dir (example_args ''doc''))
          then fs_rmtree journal_ops stale_fs (arg_output_dir (example_args ''doc''))
          else Inr stale_fs) of
      Inl e \<Rightarrow> Inl e
    | Inr fs1 \<Rightarrow>
        (case fs_mkdir journal_ops fs1 (arg_output_dir (example_args ''doc'')) of
           Inl e \<Rightarrow> Inl e
         | Inr fs2 \<Rightarrow>
             fs_write_text journal_ops fs2
               (Join (arg_output_dir (example_args ''doc'')) ''artifact_manifest.txt'')
               [CHR 0x0A])) = Inr doc_final"
  by code_simp

lemma example_final_texts:
  "map_of (texts lib_final) (Join output_path ''artifact_manifest.txt'') =
     Some (manifest_text [''core/stage'', ''math/stage''])"
  "map_of (texts doc_final) (Join output_path ''artifact_manifest.txt'') = Some [CHR 0x0A]"
  "fs_exists journal_ops stale_fs (Join output_path ''stale.txt'')"
  "run_items journal_ops ''Linux'' builtin_registry (example_args ''lib'') build_fs2
     [core_entry, extras_entry, math_entry] = Inr [build_fs1, build_fs1, build_fs3]"
  "contributing journal_ops ''Linux'' (example_args ''lib'')
     [core_entry, extras_entry, math_entry] [build_fs2, build_fs1, build_fs1, build_fs3] =
     [''core/stage'', ''math/stage'']"
  by code_simp+

text \<open>
  Claim C4. Where the descriptor has a record for the component, \<open>do_artifact\<close>
  removes the output directory if it exists, creates it, runs the items of the record
  in descriptor order, each in the file system the items before it have left, and then
  writes to \<open>artifact_manifest.txt\<close> in the output directory the relative paths of
  exactly the items that contribute, in that order, each followed by a line feed. An
  item contributes unless it is optional on this platform and its base directory does
  not exist when the item is reached; every item is reached, and one that is not
  optional always contributes. The text reads back as the list of paths when no path
  holds a line boundary. Where the descriptor has no \<open>components\<close> table, or the table
  no entry for the component, the command removes the output directory if it exists,
  creates it and writes a manifest of one line feed, which lists no path: nothing is
  scanned or copied and no exception comes from the descriptor. In a file system where
  \<open>rmtree\<close> removes the directory, a directory that is created has no entry and
  writing a file changes the existence of no other path, the output directory then
  holds no entry but the manifest.
\<close>

theorem do_artifact_manifest:
  "(components (arg_descriptor args) = Some cs \<and> map_of cs (arg_component args) = Some cr \<longrightarrow>
      do_artifact ops sys r args fs =
        (case (if fs_exists ops fs (arg_output_dir args)
               then fs_rmtree ops fs (arg_output_dir args) else Inr fs) of
           Inl e \<Rightarrow> Inl e
         | Inr fs1 \<Rightarrow>
             (case fs_mkdir ops fs1 (arg_output_dir args) of
                Inl e \<Rightarrow> Inl e
              | Inr fs2 \<Rightarrow>
                  (case run_items ops sys r args fs2 cr of
                     Inl e \<Rightarrow> Inl e
                   | Inr ss \<Rightarrow>
                       fs_write_text ops (last (fs2 # ss))
                         (Join (arg_output_dir args) ''artifact_manifest.txt'')
                         (manifest_text (contributing ops sys args cr (fs2 # ss))))))) \<and>
   (run_items ops sys r args s0 cr = Inr ss \<longrightarrow> length ss = length cr) \<and>
   subseq (contributing ops sys args cr (s0 # ss)) (map fst cr) \<and>
   (\<not> evaluate_optional sys (br_optional rec) \<longrightarrow> contributes ops sys args s (k, rec)) \<and>
   (rels \<noteq> [] \<longrightarrow> manifest_text rels = concat (map (\<lambda>p. p @ [CHR 0x0A]) rels)) \<and>
   (rels \<noteq> [] \<and> no_linebreaks rels \<longrightarrow> splitlines (manifest_text rels) = rels) \<and>
   ((case components (arg_descriptor args) of
       None \<Rightarrow> True
     | Some cs \<Rightarrow> map_of cs (arg_component args) = None) \<longrightarrow>
      do_artifact ops sys r args fs =
        (case (if fs_exists ops fs (arg_output_dir args)
               then fs_rmtree ops fs (arg_output_dir args) else Inr fs) of
           Inl e \<Rightarrow> Inl e
         | Inr fs1 \<Rightarrow>
             (case fs_mkdir ops fs1 (arg_output_dir args) of
                Inl e \<Rightarrow> Inl e
              | Inr fs2 \<Rightarrow>
                  fs_write_text ops fs2 (Join (arg_output_dir args) ''artifact_manifest.txt'')
                    [CHR 0x0A])) \<and>
      filter (\<lambda>l. l \<noteq> []) (splitlines [CHR 0x0A]) = [] \<and>
      ((\<forall>s s'. fs_rmtree ops s (arg_output_dir args) = Inr s' \<longrightarrow>
           \<not> fs_exists ops s' (arg_output_dir args)) \<and>
       (\<forall>s s' name. \<not> fs_exists ops s (arg_output_dir args) \<and>
           fs_mkdir ops s (arg_output_dir args) = Inr s' \<longrightarrow>
           \<not> fs_exists ops s' (Join (arg_output_dir args) name)) \<and>
       (\<forall>s s' t q. fs_write_text ops s (Join (arg_output_dir args) ''artifact_manifest.txt'') t = Inr s' \<and>
           q \<noteq> Join (arg_output_dir args) ''artifact_manifest.txt'' \<longrightarrow>
           fs_exists ops s' q = fs_exists ops s q) \<and>
       do_artifact ops sys r args fs = Inr fs' \<longrightarrow>
         (\<forall>name. fs_exists ops fs' (Join (arg_output_dir args) name) \<longrightarrow>
            name = ''artifact_manifest.txt'')))"
proof -
  let ?out = "arg_output_dir args"
  let ?manifest = "Join ?out ''artifact_manifest.txt''"
  let ?recreate = "if fs_exists ops fs ?out then fs_rmtree ops fs ?out else Inr fs"
  have present: "do_artifact ops sys r args fs =
        (case ?recreate of
           Inl e \<Rightarrow> Inl e
         | Inr fs1 \<Rightarrow>
             (case fs_mkdir ops fs1 ?out of
                Inl e \<Rightarrow> Inl e
              | Inr fs2 \<Rightarrow>
                  (case run_items ops sys r args fs2 cr of
                     Inl e \<Rightarrow> Inl e
                   | Inr ss \<Rightarrow>
                       fs_write_text ops (last (fs2 # ss)) ?manifest
                         (manifest_text (contributing ops sys args cr (fs2 # ss))))))"
    if "components (arg_descriptor args) = Some cs \<and> map_of cs (arg_component args) = Some cr"
  proof -
    from that have cr: "component_record_of (arg_descriptor args) (arg_component args) = cr"
      by (simp add: component_record_of_def)
    show ?thesis
      unfolding do_artifact_def artifact_output_dir_def cr artifact_loop_items
      by (auto split: sum.splits)
  qed
  have len: "length ss = length cr" if "run_items ops sys r args s0 cr = Inr ss"
    using that by (rule run_items_length)
  have required: "contributes ops sys args s (k, rec)"
    if "\<not> evaluate_optional sys (br_optional rec)"
    using that by (simp add: contributes_def)
  have lines: "manifest_text rels = concat (map (\<lambda>p. p @ [CHR 0x0A]) rels)" if "rels \<noteq> []"
    using that by (simp add: manifest_text_def join_lines)
  have roundtrip: "splitlines (manifest_text rels) = rels" if "rels \<noteq> [] \<and> no_linebreaks rels"
    using that by (intro manifest_text_roundtrip) (auto simp: no_linebreaks_def list_all_iff)
  have absent: "do_artifact ops sys r args fs =
        (case ?recreate of
           Inl e \<Rightarrow> Inl e
         | Inr fs1 \<Rightarrow>
             (case fs_mkdir ops fs1 ?out of
                Inl e \<Rightarrow> Inl e
              | Inr fs2 \<Rightarrow> fs_write_text ops fs2 ?manifest [CHR 0x0A])) \<and>
      filter (\<lambda>l. l \<noteq> []) (splitlines [CHR 0x0A]) = [] \<and>
      ((\<forall>s s'. fs_rmtree ops s ?out = Inr s' \<longrightarrow> \<not> fs_exists ops s' ?out) \<and>
       (\<forall>s s' name. \<not> fs_exists ops s ?out \<and> fs_mkdir ops s ?out = Inr s' \<longrightarrow>
           \<not> fs_exists ops s' (Join ?out name)) \<and>
       (\<forall>s s' t q. fs_write_text ops s ?manifest t = Inr s' \<and> q \<noteq> ?manifest \<longrightarrow>
           fs_exists ops s' q = fs_exists ops s q) \<and>
       do_artifact ops sys r args fs = Inr fs' \<longrightarrow>
         (\<forall>name. fs_exists ops fs' (Join ?out name) \<longrightarrow> name = ''artifact_manifest.txt''))"
    if none: "case components (arg_descriptor args) of
       None \<Rightarrow> True
     | Some cs \<Rightarrow> map_of cs (arg_component args) = None"
  proof -
    from none have cr: "component_record_of (arg_descriptor args) (arg_component args) = []"
      by (auto simp: component_record_of_def split: option.splits)
    have run: "do_artifact ops sys r args fs =
        (case ?recreate of
           Inl e \<Rightarrow> Inl e
         | Inr fs1 \<Rightarrow>
             (case fs_mkdir ops fs1 ?out of
                Inl e \<Rightarrow> Inl e
              | Inr fs2 \<Rightarrow> fs_write_text ops fs2 ?manifest [CHR 0x0A]))"
      unfolding do_artifact_def artifact_output_dir_def cr
      using manifest_text_empty(1) by (auto split: sum.splits)
    have only: "name = ''artifact_manifest.txt''"
      if gone: "\<forall>s s'. fs_rmtree ops s ?out = Inr s' \<longrightarrow> \<not> fs_exists ops s' ?out"
        and fresh: "\<forall>s s' name. \<not> fs_exists ops s ?out \<and> fs_mkdir ops s ?out = Inr s' \<longrightarrow>
           \<not> fs_exists ops s' (Join ?out name)"
        and frame: "\<forall>s s' t q. fs_write_text ops s ?manifest t = Inr s' \<and> q \<noteq> ?manifest \<longrightarrow>
           fs_exists ops s' q = fs_exists ops s q"
        and ok: "do_artifact ops sys r args fs = Inr fs'"
        and there: "fs_exists ops fs' (Join ?out name)"
      for name
    proof (rule ccontr)
      assume other: "name \<noteq> ''artifact_manifest.txt''"
      from ok obtain fs1 fs2 where
        re: "?recreate = Inr fs1" and mk: "fs_mkdir ops fs1 ?out = Inr fs2" and
        wr: "fs_write_text ops fs2 ?manifest [CHR 0x0A] = Inr fs'"
        unfolding run by (auto split: sum.splits)
      have "\<not> fs_exists ops fs1 ?out"
        using re gone by (auto split: if_splits)
      with fresh mk have "\<not> fs_exists ops fs2 (Join ?out name)"
        by blast
      moreover from other have "Join ?out name \<noteq> ?manifest"
        by simp
      with frame wr have "fs_exists ops fs' (Join ?out name) = fs_exists ops fs2 (Join ?out name)"
        by blast
      ultimately show False
        using there by simp
    qed
    show ?thesis
      using run manifest_text_empty(2) only unfolding manifest_text_empty(1) by blast
  qed
  show ?thesis
    using present len contributing_subseq [of ops sys args cr "s0 # ss"] required lines roundtrip
      absent
    by blast
qed

theorem do_artifact_manifest_witness:
  "do_artifact journal_ops ''Linux'' builtin_registry (example_args ''lib'') build_fs =
     Inr lib_final \<and>
   map_of (texts lib_final) (Join output_path ''artifact_manifest.txt'') =
     Some (manifest_text [''core/stage'', ''math/stage'']) \<and>
   contributing journal_ops ''Linux'' (example_args ''lib'')
     [core_entry, extras_entry, math_entry] [build_fs2, build_fs1, build_fs1, build_fs3] =
     [''core/stage'', ''math/stage''] \<and>
   splitlines (manifest_text [''core/stage'', ''math/stage'']) = [''core/stage'', ''math/stage''] \<and>
   fs_exists journal_ops stale_fs (Join output_path ''stale.txt'') \<and>
   do_artifact journal_ops ''Linux'' builtin_registry (example_args ''doc'') stale_fs =
     Inr doc_final \<and>
   map_of (texts doc_final) (Join output_path ''artifact_manifest.txt'') = Some [CHR 0x0A] \<and>
   \<not> fs_exists journal_ops doc_final (Join output_path ''stale.txt'')"
proof -
  have out: "arg_output_dir (example_args c) = output_path" for c
    by (simp add: example_args_def)
  have lib: "components (arg_descriptor (example_args ''lib'')) =
      Some [(''lib'', [core_entry, extras_entry, math_entry])] \<and>
    map_of [(''lib'', [core_entry, extras_entry, math_entry])] (arg_component (example_args ''lib'')) =
      Some [core_entry, extras_entry, math_entry]"
    by (simp add: example_args_def example_descriptor_def)
  note tl = do_artifact_manifest [where args = "example_args ''lib''"
      and cs = "[(''lib'', [core_entry, extras_entry, math_entry])]"
      and cr = "[core_entry, extras_entry, math_entry]"
      and ops = journal_ops and sys = "''Linux''" and r = builtin_registry and fs = build_fs
      and rels = "[''core/stage'', ''math/stage'']"]
  from tl lib have a: "do_artifact journal_ops ''Linux'' builtin_registry (example_args ''lib'')
      build_fs = Inr lib_final"
    unfolding example_lib_run by blast
  from tl example_no_linebreaks have b: "splitlines (manifest_text [''core/stage'', ''math/stage'']) =
      [''core/stage'', ''math/stage'']"
    by blast
  note td = do_artifact_manifest [where args = "example_args ''doc''"
      and ops = journal_ops and sys = "''Linux''" and r = builtin_registry and fs = stale_fs
      and fs' = doc_final]
  from td example_absent have c: "do_artifact journal_ops ''Linux'' builtin_registry
      (example_args ''doc'') stale_fs = Inr doc_final"
    unfolding example_doc_run by blast
  have laws: "(\<forall>s s'. fs_rmtree journal_ops s (arg_output_dir (example_args ''doc'')) = Inr s' \<longrightarrow>
           \<not> fs_exists journal_ops s' (arg_output_dir (example_args ''doc''))) \<and>
       (\<forall>s s' name. \<not> fs_exists journal_ops s (arg_output_dir (example_args ''doc'')) \<and>
           fs_mkdir journal_ops s (arg_output_dir (example_args ''doc'')) = Inr s' \<longrightarrow>
           \<not> fs_exists journal_ops s' (Join (arg_output_dir (example_args ''doc'')) name)) \<and>
       (\<forall>s s' t q. fs_write_text journal_ops s
             (Join (arg_output_dir (example_args ''doc'')) ''artifact_manifest.txt'') t = Inr s' \<and>
           q \<noteq> Join (arg_output_dir (example_args ''doc'')) ''artifact_manifest.txt'' \<longrightarrow>
           fs_exists journal_ops s' q = fs_exists journal_ops s q)"
    using journal_rmtree_gone journal_mkdir_fresh journal_write_frame by blast
  from td example_absent laws c have
    "\<forall>name. fs_exists journal_ops doc_final (Join (arg_output_dir (example_args ''doc'')) name) \<longrightarrow>
       name = ''artifact_manifest.txt''"
    by blast
  then have d: "\<not> fs_exists journal_ops doc_final (Join output_path ''stale.txt'')"
    unfolding out by auto
  show ?thesis
    using a b c d example_final_texts(1,2,3,5) by blast
qed

text \<open>
  Claim C5. Let an item of the component record be optional on this platform, and let
  its base directory not exist when the loop reaches it. Then the loop goes on to the
  next item with the file system and the list of relative paths as they were: nothing
  is copied, no exception is raised, and the whole command does what it does on the
  remaining items. The keys of a table being distinct, the relative path of the item
  is not in the list written to the manifest.
\<close>

theorem do_artifact_optional_skip:
  assumes cr: "component_record_of (arg_descriptor args) (arg_component args) =
      earlier @ (relpath, rec) # later"
    and out: "artifact_output_dir ops (arg_output_dir args) fs = Inr fs2"
    and pre: "artifact_loop ops sys r args fs2 [] earlier = Inr (fs1, rels1)"
    and opt: "evaluate_optional sys (br_optional rec)"
    and missing: "\<not> fs_exists ops fs1 (Join (arg_root_dir args) relpath)"
  shows "artifact_loop ops sys r args fs1 rels1 ((relpath, rec) # later) =
           artifact_loop ops sys r args fs1 rels1 later \<and>
         do_artifact ops sys r args fs =
           (case artifact_loop ops sys r args fs1 rels1 later of
              Inl e \<Rightarrow> Inl e
            | Inr (fs3, rels) \<Rightarrow>
                fs_write_text ops fs3 (Join (arg_output_dir args) ''artifact_manifest.txt'')
                  (manifest_text rels)) \<and>
         (distinct (map fst (earlier @ (relpath, rec) # later)) \<and>
          artifact_loop ops sys r args fs1 rels1 later = Inr (fs3, rels) \<longrightarrow>
            relpath \<notin> set rels)"
proof -
  have skip: "artifact_loop ops sys r args fs1 rels1 ((relpath, rec) # later) =
           artifact_loop ops sys r args fs1 rels1 later"
    using opt missing by (rule artifact_loop_skip)
  have "artifact_loop ops sys r args fs2 [] (earlier @ (relpath, rec) # later) =
      artifact_loop ops sys r args fs1 rels1 later"
    unfolding artifact_loop_append pre using skip by simp
  then have whole: "do_artifact ops sys r args fs =
           (case artifact_loop ops sys r args fs1 rels1 later of
              Inl e \<Rightarrow> Inl e
            | Inr (fs3, rels) \<Rightarrow>
                fs_write_text ops fs3 (Join (arg_output_dir args) ''artifact_manifest.txt'')
                  (manifest_text rels))"
    by (simp add: do_artifact_def out cr)
  have absent: "relpath \<notin> set rels"
    if d: "distinct (map fst (earlier @ (relpath, rec) # later))"
      and l: "artifact_loop ops sys r args fs1 rels1 later = Inr (fs3, rels)"
  proof -
    from artifact_loop_acc [OF pre] have "subseq rels1 (map fst earlier)"
      by auto
    then have one: "set rels1 \<subseteq> set (map fst earlier)"
      by (rule subseq_subset) 
    from artifact_loop_acc [OF l] obtain new where new: "rels = rels1 @ new"
      "subseq new (map fst later)"
      by blast
    from new(2) have two: "set new \<subseteq> set (map fst later)"
      by (rule subseq_subset)
    from d have "relpath \<notin> set (map fst earlier)" "relpath \<notin> set (map fst later)"
      by auto
    with one two new(1) show ?thesis
      by auto
  qed
  show ?thesis
    using skip whole absent by blast
qed

theorem do_artifact_optional_skip_witness:
  "do_artifact journal_ops ''Linux'' builtin_registry (example_args ''lib'') build_fs =
     fs_write_text journal_ops build_fs3 (Join output_path ''artifact_manifest.txt'')
       (manifest_text [''core/stage'', ''math/stage'']) \<and>
   ''extras/stage'' \<notin> set [''core/stage'', ''math/stage'']"
proof -
  have cr: "component_record_of (arg_descriptor (example_args ''lib''))
      (arg_component (example_args ''lib'')) =
      [core_entry] @ (''extras/stage'', plain_record\<lparr>br_optional := Some (VStr ''linux'')\<rparr>) #
        [math_entry]"
    by (simp add: example_record extras_entry_def)
  have opt: "evaluate_optional ''Linux''
      (br_optional (plain_record\<lparr>br_optional := Some (VStr ''linux'')\<rparr>))"
    by code_simp
  have missing: "\<not> fs_exists journal_ops build_fs1
      (Join (arg_root_dir (example_args ''lib'')) ''extras/stage'')"
    by code_simp
  have d: "distinct (map fst ([core_entry] @
      (''extras/stage'', plain_record\<lparr>br_optional := Some (VStr ''linux'')\<rparr>) # [math_entry]))"
    by code_simp
  note t = do_artifact_optional_skip [OF cr example_output_dir example_loop_core opt missing,
      of build_fs3 "[''core/stage'', ''math/stage'']"]
  from t have "do_artifact journal_ops ''Linux'' builtin_registry (example_args ''lib'') build_fs =
     fs_write_text journal_ops build_fs3 (Join output_path ''artifact_manifest.txt'')
       (manifest_text [''core/stage'', ''math/stage''])"
    by (simp add: example_loop_math) (simp add: example_args_def output_path_def)
  moreover from t d have "''extras/stage'' \<notin> set [''core/stage'', ''math/stage'']"
    using example_loop_math by blast
  ultimately show ?thesis
    by blast
qed

end
